theory Spec2Isabelle
  imports Main "HOL-Library.Signed_Division"
begin

section \<open>Data model of threads.cpp\<close>

text \<open>
  The runtime keeps all of its state in file-scope variables: the thread table
  \<open>tcb_array\<close>, the counters \<open>num_threads\<close> and \<open>current_thread\<close>, the flag
  \<open>initialized\<close> and the semaphore directory (\<open>semaphore_keys\<close>, \<open>semaphore_map\<close>,
  \<open>num_semaphores\<close>).  Every gated block of an operation is modelled as a function from
  this state to an outcome.  Pointers (\<open>void*\<close>, \<open>sem_t*\<close>, function pointers) are
  natural numbers with \<open>0\<close> for \<open>NULL\<close>.  C \<open>int\<close> values that index the table are
  \<open>int\<close>; the table never holds more than 150 entries, so no arithmetic on them can
  overflow.
\<close>

definition MAX_THREADS :: int where
  "MAX_THREADS = 150"

definition SEM_VALUE_MAX :: nat where
  "SEM_VALUE_MAX = 65536"

definition MAX_SEMAPHORES :: nat where
  "MAX_SEMAPHORES = 128"

text \<open>The three error numbers come from the host's \<open>errno.h\<close> (values of x86-64 Linux).\<close>

definition ESRCH :: int where
  "ESRCH = 3"

definition EINVAL :: int where
  "EINVAL = 22"

definition EDEADLK :: int where
  "EDEADLK = 35"

datatype ThreadStatus = READY | RUNNING | EXITED | BLOCKED

text \<open>
  \<open>SIGALRM\<close> is blocked between \<open>lock()\<close> and \<open>unlock()\<close> and inside \<open>signal_handler\<close>
  (between its two \<open>sigprocmask\<close> calls); everywhere else the handler can run.  A
  \<open>point\<close> says where the running thread stands when it is outside these blocks.  Apart
  from user code there are three such places in the library where the state of the
  runtime still matters to the code that follows:
  \<^item> \<open>AfterInit\<close>: in \<open>pthread_create\<close>, \<open>init_threading\<close> has armed the timer and
    \<open>lock()\<close> is not yet called (with the arguments \<open>start_routine\<close> and \<open>arg\<close> of the call
    and the value its \<open>malloc\<close> is going to return);
  \<^item> \<open>BeforeLongjmp\<close>: in \<open>pthread_exit\<close>, \<open>pthread_join\<close>, \<open>sem_wait\<close> and
    \<open>signal_handler\<close>, after \<open>schedule(); unlock();\<close> (in the handler:
    \<open>sigprocmask(SIG_SETMASK, &oldset, NULL)\<close>) and before
    \<open>longjmp(tcb_array[current_thread].context, 1)\<close>;
  \<^item> \<open>AfterSetjmp\<close>: in \<open>pthread_join\<close>, \<open>setjmp\<close> has returned 1 and the second \<open>lock()\<close>
    is not yet called (with the locals \<open>target_index\<close> and \<open>value_ptr\<close>).

  At the other places outside the blocks no variable of the runtime is written any
  more before user code goes on: an operation behind its last \<open>unlock()\<close>, \<open>sem_wait\<close>
  and \<open>signal_handler\<close> behind their \<open>setjmp\<close>, and \<open>thread_wrapper\<close> (which reads the
  start routine and its argument from the record of the running thread).  They count as
  user code, and for the handler as the point it interrupted.
\<close>

datatype point =
    UserCode
  | AfterInit nat nat nat
  | BeforeLongjmp
  | AfterSetjmp int nat

text \<open>
  A \<open>jmp_buf\<close> is abstracted to the program point it resumes.  The source fills a
  thread's buffer at four places: \<open>pthread_create\<close> fabricates one that enters
  \<open>thread_wrapper\<close>; \<open>signal_handler\<close>, \<open>pthread_join\<close> and \<open>sem_wait\<close> each call
  \<open>setjmp\<close>.  The buffer saved in \<open>signal_handler\<close> carries the point at which the
  signal arrived, where the handler returns to.  The buffer saved in \<open>pthread_join\<close>
  carries the two locals that the code after the \<open>setjmp\<close> reads (\<open>target_index\<close> and
  \<open>value_ptr\<close>).  \<open>Zeroed\<close> is a buffer of zero bytes (static storage, or after
  \<open>memset\<close>).  The source never clears a buffer when the call that saved it has
  returned; a later jump through such a buffer is modelled as resuming the point it
  names.
\<close>

datatype jmp_buf =
    Zeroed
  | Fabricated
  | SavedInHandler point
  | SavedInJoin int nat
  | SavedInSemWait

record TCB =
  thread_id :: int
  stack :: nat
  ctx :: jmp_buf
  status :: ThreadStatus
  start_routine :: nat
  arg :: nat
  return_value :: nat
  joined_by :: int
  has_been_joined :: bool

text \<open>
  \<open>waiting_queue\<close> is the heap buffer of \<open>queue_capacity\<close> cells; only its first
  \<open>queue_size\<close> cells are live.  \<open>queue_size\<close> and \<open>queue_capacity\<close> are C \<open>int\<close>s
  that are never negative (the size is decremented only under \<open>queue_size > 0\<close>), and
  \<open>value\<close> is an \<open>unsigned\<close> that is decremented only under \<open>value > 0\<close> and
  incremented only under \<open>value < SEM_VALUE_MAX - 1\<close>; all three are naturals.
\<close>

record SemaphoreData =
  sem_initialized :: bool
  sem_value :: nat
  waiting_queue :: "int list"
  queue_size :: nat
  queue_capacity :: nat

text \<open>
  The directory is the list of the first \<open>num_semaphores\<close> pairs
  \<open>(semaphore_keys[i], *semaphore_map[i])\<close>, in array order.
\<close>

record rt_state =
  tcb_array :: "TCB list"
  num_threads :: int
  current_thread :: int
  initialized :: bool
  semaphores :: "(nat \<times> SemaphoreData) list"

text \<open>
  \<open>tcb s i\<close> reads \<open>tcb_array[i]\<close> and \<open>tcb_update i f s\<close> writes it.  The C code never
  checks an index; outside \<open>0 \<le> i < 150\<close> its behaviour is undefined.  Lemma
  \<open>reachable_inv\<close> below shows that every index the operations use is in range in
  every reachable state.
\<close>

definition tcb :: "rt_state \<Rightarrow> int \<Rightarrow> TCB" where
  "tcb s i = tcb_array s ! nat i"

definition tcb_update :: "int \<Rightarrow> (TCB \<Rightarrow> TCB) \<Rightarrow> rt_state \<Rightarrow> rt_state" where
  "tcb_update i f s = s\<lparr>tcb_array := (tcb_array s)[nat i := f (tcb_array s ! nat i)]\<rparr>"

text \<open>Static storage is zero-filled; \<open>READY\<close> is the enumerator with value 0.\<close>

definition zero_tcb :: TCB where
  "zero_tcb = \<lparr>thread_id = 0, stack = 0, ctx = Zeroed, status = READY, start_routine = 0,
     arg = 0, return_value = 0, joined_by = 0, has_been_joined = False\<rparr>"

definition boot :: rt_state where
  "boot = \<lparr>tcb_array = replicate 150 zero_tcb, num_threads = 0, current_thread = 0,
     initialized = False, semaphores = []\<rparr>"

section \<open>Semaphore directory\<close>

fun lookup_sem :: "(nat \<times> SemaphoreData) list \<Rightarrow> nat \<Rightarrow> SemaphoreData option" where
  "lookup_sem [] sem = None"
| "lookup_sem ((k, d) # rest) sem = (if k = sem then Some d else lookup_sem rest sem)"

definition get_semaphore_data :: "rt_state \<Rightarrow> nat \<Rightarrow> SemaphoreData option" where
  "get_semaphore_data s sem = lookup_sem (semaphores s) sem"

text \<open>
  \<open>get_semaphore_data\<close> returns a pointer to the record of the first matching key;
  \<open>put_semaphore_data\<close> is a write through that pointer.
\<close>

fun store_sem :: "(nat \<times> SemaphoreData) list \<Rightarrow> nat \<Rightarrow> SemaphoreData
    \<Rightarrow> (nat \<times> SemaphoreData) list" where
  "store_sem [] sem d' = []"
| "store_sem ((k, d) # rest) sem d' =
     (if k = sem then (k, d') # rest else (k, d) # store_sem rest sem d')"

definition put_semaphore_data :: "rt_state \<Rightarrow> nat \<Rightarrow> SemaphoreData \<Rightarrow> rt_state" where
  "put_semaphore_data s sem d = s\<lparr>semaphores := store_sem (semaphores s) sem d\<rparr>"

definition add_semaphore_mapping :: "rt_state \<Rightarrow> nat \<Rightarrow> SemaphoreData \<Rightarrow> bool \<times> rt_state" where
  "add_semaphore_mapping s sem d =
     (if length (semaphores s) \<ge> MAX_SEMAPHORES then (False, s)
      else (True, s\<lparr>semaphores := semaphores s @ [(sem, d)]\<rparr>))"

fun remove_first :: "(nat \<times> SemaphoreData) list \<Rightarrow> nat \<Rightarrow> (nat \<times> SemaphoreData) list" where
  "remove_first [] sem = []"
| "remove_first ((k, d) # rest) sem = (if k = sem then rest else (k, d) # remove_first rest sem)"

definition remove_semaphore_mapping :: "rt_state \<Rightarrow> nat \<Rightarrow> rt_state" where
  "remove_semaphore_mapping s sem = s\<lparr>semaphores := remove_first (semaphores s) sem\<rparr>"

section \<open>Global cleanup and initialisation\<close>

text \<open>The block that resets every field of a record (used by cleanup and by join).\<close>

definition wipe :: "TCB \<Rightarrow> TCB" where
  "wipe t = t\<lparr>thread_id := 0, status := EXITED, has_been_joined := True, return_value := 0,
     joined_by := - 1, start_routine := 0, arg := 0, ctx := Zeroed\<rparr>"

function cleanup_threads :: "rt_state \<Rightarrow> int \<Rightarrow> rt_state" where
  "cleanup_threads s i =
     (if i < num_threads s then
        cleanup_threads
          (tcb_update i (\<lambda>t. wipe (if i \<noteq> current_thread s \<and> stack t \<noteq> 0
                                    then t\<lparr>stack := 0\<rparr> else t)) s) (i + 1)
      else s)"
  by pat_completeness auto
termination
  by (relation "measure (\<lambda>(s, i). nat (num_threads s - i))") (auto simp: tcb_update_def)

declare cleanup_threads.simps [simp del]

definition cleanup_all_resources :: "rt_state \<Rightarrow> rt_state" where
  "cleanup_all_resources s =
     (if \<not> initialized s then s
      else (cleanup_threads s 0)\<lparr>semaphores := [], num_threads := 0, current_thread := 0,
             initialized := False\<rparr>)"

function init_tcbs :: "rt_state \<Rightarrow> int \<Rightarrow> rt_state" where
  "init_tcbs s i =
     (if i < MAX_THREADS then
        init_tcbs
          (tcb_update i (\<lambda>t. t\<lparr>thread_id := i, stack := 0, status := EXITED, start_routine := 0,
                                arg := 0, return_value := 0, joined_by := - 1,
                                has_been_joined := (i > 0)\<rparr>) s) (i + 1)
      else s)"
  by pat_completeness auto
termination
  by (relation "measure (\<lambda>(s, i). nat (MAX_THREADS - i))") auto

declare init_tcbs.simps [simp del]

definition init_threading :: "rt_state \<Rightarrow> rt_state" where
  "init_threading s =
     (if initialized s then s
      else
        (let s1 = s\<lparr>initialized := True\<rparr>;
             s2 = init_tcbs s1 0;
             s3 = tcb_update 0 (\<lambda>t. t\<lparr>status := RUNNING, has_been_joined := False\<rparr>) s2
         in s3\<lparr>num_threads := 1, current_thread := 0\<rparr>))"

section \<open>The scheduler\<close>

text \<open>
  \<open>sched_scan\<close> is the \<open>while\<close> loop of \<open>schedule\<close>; it returns whether it left through
  the \<open>return\<close> inside the loop.  C's \<open>%\<close> truncates towards zero, which is \<open>smod\<close>.
\<close>

function sched_scan :: "rt_state \<Rightarrow> int \<Rightarrow> bool \<times> rt_state" where
  "sched_scan s checked_count =
     (if checked_count < num_threads s then
        (let s1 = s\<lparr>current_thread := (current_thread s + 1) smod num_threads s\<rparr> in
         if status (tcb s1 (current_thread s1)) = READY
         then (True, tcb_update (current_thread s1) (\<lambda>t. t\<lparr>status := RUNNING\<rparr>) s1)
         else sched_scan s1 (checked_count + 1))
      else (False, s))"
  by pat_completeness auto
termination
  by (relation "measure (\<lambda>(s, c). nat (num_threads s - c))") auto

declare sched_scan.simps [simp del]

definition all_exited :: "rt_state \<Rightarrow> bool" where
  "all_exited s = list_all (\<lambda>t. status t = EXITED) (take (nat (num_threads s)) (tcb_array s))"

datatype sched = Continue rt_state | ProcessExit rt_state

definition schedule :: "rt_state \<Rightarrow> sched" where
  "schedule s =
     (let original_thread = current_thread s;
          (found, s1) = sched_scan s 0
      in if found then Continue s1
         else if all_exited s1 then ProcessExit (cleanup_all_resources s1)
         else
           (let s2 = s1\<lparr>current_thread := original_thread\<rparr> in
            if status (tcb s2 (current_thread s2)) \<noteq> EXITED
               \<and> status (tcb s2 (current_thread s2)) \<noteq> BLOCKED
            then Continue (tcb_update (current_thread s2) (\<lambda>t. t\<lparr>status := RUNNING\<rparr>) s2)
            else Continue s2))"

section \<open>Outcomes of an operation\<close>

text \<open>
  What a call writes through an out-pointer of its caller: nothing, the new handle
  (\<open>*thread\<close> in \<open>pthread_create\<close>), or a return value at an address (\<open>*value_ptr\<close> in
  \<open>pthread_join\<close>).
\<close>

datatype user_write = NoWrite | WriteHandle int | WriteValue nat nat

text \<open>
  A gated block either ends with a return to the caller (\<open>Ret\<close>: return code, write,
  new state), or has called \<open>schedule\<close>, unblocked the signal and stands before its
  \<open>longjmp\<close> (\<open>Jumps\<close>: the call does not return to its caller from there), or ends
  the process through \<open>exit\<close> (\<open>Terminated\<close>: exit code, state).
\<close>

datatype outcome =
    Ret int user_write rt_state
  | Jumps rt_state
  | Terminated int rt_state

text \<open>
  Where \<open>longjmp(tcb_array[current_thread].context, 1)\<close> lands: \<open>thread_wrapper\<close>
  starts (it unblocks the signal and calls the start routine), the signal handler
  restores the mask and returns to the point it interrupted, \<open>pthread_join\<close> goes on
  behind its \<open>setjmp\<close>, \<open>sem_wait\<close> executes \<open>unlock(); return 0;\<close>, or the buffer
  was zero bytes.
\<close>

datatype landing = Starts | Continues point | Resumes int nat | Returns int | Crashes

section \<open>Thread API\<close>

text \<open>
  \<open>pthread_create_locked\<close> is \<open>pthread_create\<close> from its \<open>lock()\<close> on.  \<open>stack_mem\<close> is
  what \<open>malloc(STACK_SIZE)\<close> returns (\<open>0\<close> when it fails).  The buffer is fabricated
  only after a successful allocation.
\<close>

definition pthread_create_locked :: "rt_state \<Rightarrow> nat \<Rightarrow> nat \<Rightarrow> nat \<Rightarrow> outcome" where
  "pthread_create_locked s start_routine' arg' stack_mem =
     (if num_threads s \<ge> MAX_THREADS then Ret (- 1) NoWrite s
      else
        (let new_thread_id = num_threads s;
             s1 = s\<lparr>num_threads := num_threads s + 1\<rparr>;
             s2 = tcb_update new_thread_id
                    (\<lambda>t. t\<lparr>thread_id := new_thread_id, status := READY,
                            start_routine := start_routine', arg := arg', return_value := 0,
                            joined_by := - 1, has_been_joined := False,
                            stack := stack_mem\<rparr>) s1
         in if stack_mem = 0 then Ret (- 1) NoWrite (s2\<lparr>num_threads := num_threads s2 - 1\<rparr>)
            else Ret 0 (WriteHandle new_thread_id)
                   (tcb_update new_thread_id (\<lambda>t. t\<lparr>ctx := Fabricated\<rparr>) s2)))"

text \<open>
  The whole call when no signal arrives between \<open>init_threading\<close> and \<open>lock()\<close>.
\<close>

definition pthread_create :: "rt_state \<Rightarrow> nat \<Rightarrow> nat \<Rightarrow> nat \<Rightarrow> outcome" where
  "pthread_create s0 start_routine' arg' stack_mem =
     pthread_create_locked (if \<not> initialized s0 then init_threading s0 else s0)
       start_routine' arg' stack_mem"

definition pthread_self :: "rt_state \<Rightarrow> int" where
  "pthread_self s = thread_id (tcb s (current_thread s))"

text \<open>
  The value copied to \<open>*value_ptr\<close> and the block that frees the stack and clears the
  record; the source has both twice, before and after the \<open>setjmp\<close> of \<open>pthread_join\<close>.
\<close>

definition read_return_value :: "rt_state \<Rightarrow> int \<Rightarrow> nat \<Rightarrow> user_write" where
  "read_return_value s target_index value_ptr =
     (if value_ptr \<noteq> 0 then WriteValue value_ptr (return_value (tcb s target_index))
      else NoWrite)"

definition reap :: "int \<Rightarrow> rt_state \<Rightarrow> rt_state" where
  "reap target_index s =
     tcb_update target_index (\<lambda>t. wipe (if stack t \<noteq> 0 then t\<lparr>stack := 0\<rparr> else t)) s"

text \<open>
  \<open>longjmp(tcb_array[current_thread].context, 1)\<close>: where the buffer of the current
  thread leads.  The jump itself changes no variable of the runtime.
\<close>

definition land :: "jmp_buf \<Rightarrow> landing" where
  "land c =
     (case c of
        Zeroed \<Rightarrow> Crashes
      | Fabricated \<Rightarrow> Starts
      | SavedInHandler p \<Rightarrow> Continues p
      | SavedInJoin target_index value_ptr \<Rightarrow> Resumes target_index value_ptr
      | SavedInSemWait \<Rightarrow> Returns 0)"

definition longjmp :: "rt_state \<Rightarrow> landing" where
  "longjmp s = land (ctx (tcb s (current_thread s)))"

text \<open>
  The sequence \<open>schedule(); unlock();\<close> that ends every yielding path; the signal handler
  has \<open>sigprocmask(SIG_SETMASK, &oldset, NULL)\<close> for \<open>unlock()\<close>.  Behind it the thread
  stands before its \<open>longjmp\<close> with the signal unblocked.
\<close>

definition schedule_and_unlock :: "rt_state \<Rightarrow> outcome" where
  "schedule_and_unlock s =
     (case schedule s of
        ProcessExit s' \<Rightarrow> Terminated 0 s'
      | Continue s' \<Rightarrow> Jumps s')"

definition pthread_exit :: "rt_state \<Rightarrow> nat \<Rightarrow> outcome" where
  "pthread_exit s value_ptr =
     (let s1 = tcb_update (current_thread s) (\<lambda>t. t\<lparr>return_value := value_ptr\<rparr>) s;
          s2 = tcb_update (current_thread s1) (\<lambda>t. t\<lparr>status := EXITED\<rparr>) s1;
          joined_by' = joined_by (tcb s2 (current_thread s2));
          s3 = (if joined_by' \<noteq> - 1
                then tcb_update joined_by' (\<lambda>t. t\<lparr>status := READY\<rparr>) s2 else s2)
      in if all_exited s3 then Terminated 0 (cleanup_all_resources s3)
         else schedule_and_unlock s3)"

function find_thread :: "rt_state \<Rightarrow> int \<Rightarrow> int \<Rightarrow> int" where
  "find_thread s thread i =
     (if i < num_threads s then
        (if thread_id (tcb s i) = thread then i else find_thread s thread (i + 1))
      else - 1)"
  by pat_completeness auto
termination
  by (relation "measure (\<lambda>(s, thread, i). nat (num_threads s - i))") auto

declare find_thread.simps [simp del]

text \<open>\<open>thread\<close> is the handle after the cast \<open>(int)(long)thread\<close>.\<close>

definition pthread_join :: "rt_state \<Rightarrow> int \<Rightarrow> nat \<Rightarrow> outcome" where
  "pthread_join s thread value_ptr =
     (let target_index = find_thread s thread 0 in
      if target_index = - 1 then Ret ESRCH NoWrite s
      else if has_been_joined (tcb s target_index) then Ret EINVAL NoWrite s
      else if target_index = current_thread s then Ret EDEADLK NoWrite s
      else if status (tcb s target_index) = EXITED then
        Ret 0 (read_return_value s target_index value_ptr) (reap target_index s)
      else
        (let s1 = tcb_update target_index (\<lambda>t. t\<lparr>joined_by := current_thread s\<rparr>) s;
             s2 = tcb_update (current_thread s1) (\<lambda>t. t\<lparr>status := BLOCKED\<rparr>) s1;
             old_thread = current_thread s2;
             s3 = tcb_update old_thread (\<lambda>t. t\<lparr>ctx := SavedInJoin target_index value_ptr\<rparr>) s2
         in schedule_and_unlock s3))"

text \<open>
  \<open>pthread_join\<close> behind its \<open>setjmp\<close>, from the second \<open>lock()\<close> on: the return value is
  copied, the target is reaped and the call returns 0.
\<close>

definition pthread_join_resumed :: "rt_state \<Rightarrow> int \<Rightarrow> nat \<Rightarrow> outcome" where
  "pthread_join_resumed s target_index value_ptr =
     Ret 0 (read_return_value s target_index value_ptr) (reap target_index s)"

text \<open>
  The handler, entered at point \<open>p\<close> of the running thread.  (It is installed with
  \<open>SA_NODEFER\<close> and blocks the signal itself; a second signal before that is a second
  entry at the same point.)
\<close>

definition signal_handler :: "rt_state \<Rightarrow> point \<Rightarrow> outcome" where
  "signal_handler s p =
     (let old_thread = current_thread s;
          s1 = tcb_update old_thread (\<lambda>t. t\<lparr>ctx := SavedInHandler p\<rparr>) s;
          s2 = (if status (tcb s1 old_thread) = RUNNING
                then tcb_update old_thread (\<lambda>t. t\<lparr>status := READY\<rparr>) s1 else s1)
      in schedule_and_unlock s2)"

section \<open>Semaphores\<close>

text \<open>
  \<open>data_mem\<close> and \<open>queue_mem\<close> say whether the two \<open>malloc\<close> calls succeed.  Fresh cells
  are never read before they are written (only cells below \<open>queue_size\<close> are read), so
  the model fills them with 0.
\<close>

definition sem_init :: "rt_state \<Rightarrow> nat \<Rightarrow> int \<Rightarrow> nat \<Rightarrow> bool \<Rightarrow> bool \<Rightarrow> outcome" where
  "sem_init s sem pshared v data_mem queue_mem =
     (if pshared \<noteq> 0 \<or> v \<ge> SEM_VALUE_MAX then Ret (- 1) NoWrite s
      else if \<not> data_mem then Ret (- 1) NoWrite s
      else
        (let data = \<lparr>sem_initialized = True, sem_value = v, waiting_queue = replicate 16 0,
                      queue_size = 0, queue_capacity = 16\<rparr>
         in if \<not> queue_mem then Ret (- 1) NoWrite s
            else
              (case add_semaphore_mapping s sem data of
                 (False, s') \<Rightarrow> Ret (- 1) NoWrite s'
               | (True, s') \<Rightarrow> Ret 0 NoWrite s')))"

definition sem_destroy :: "rt_state \<Rightarrow> nat \<Rightarrow> outcome" where
  "sem_destroy s sem =
     (case get_semaphore_data s sem of
        None \<Rightarrow> Ret (- 1) NoWrite s
      | Some data \<Rightarrow>
          if \<not> sem_initialized data then Ret (- 1) NoWrite s
          else Ret 0 NoWrite (remove_semaphore_mapping s sem))"

text \<open>\<open>realloc_mem\<close> says whether \<open>realloc\<close> succeeds when the queue has to grow.\<close>

definition sem_wait :: "rt_state \<Rightarrow> nat \<Rightarrow> bool \<Rightarrow> outcome" where
  "sem_wait s sem realloc_mem =
     (case get_semaphore_data s sem of
        None \<Rightarrow> Ret (- 1) NoWrite s
      | Some data \<Rightarrow>
          if \<not> sem_initialized data then Ret (- 1) NoWrite s
          else if sem_value data > 0 then
            Ret 0 NoWrite (put_semaphore_data s sem (data\<lparr>sem_value := sem_value data - 1\<rparr>))
          else if queue_size data \<ge> queue_capacity data \<and> \<not> realloc_mem then
            Ret (- 1) NoWrite s
          else
            (let data1 = (if queue_size data \<ge> queue_capacity data
                          then data\<lparr>waiting_queue :=
                                       waiting_queue data @ replicate (queue_capacity data) 0,
                                     queue_capacity := queue_capacity data * 2\<rparr>
                          else data);
                 data2 = data1\<lparr>waiting_queue :=
                                 (waiting_queue data1)[queue_size data1 := current_thread s],
                               queue_size := queue_size data1 + 1\<rparr>;
                 s1 = put_semaphore_data s sem data2;
                 s2 = tcb_update (current_thread s1) (\<lambda>t. t\<lparr>status := BLOCKED\<rparr>) s1;
                 old_thread = current_thread s2;
                 s3 = tcb_update old_thread (\<lambda>t. t\<lparr>ctx := SavedInSemWait\<rparr>) s2
             in schedule_and_unlock s3))"

text \<open>The loop of \<open>sem_post\<close> that moves every waiter one cell towards the head.\<close>

function shift_queue :: "int list \<Rightarrow> nat \<Rightarrow> nat \<Rightarrow> int list" where
  "shift_queue q n i =
     (if i < n - 1 then shift_queue (q[i := q ! (i + 1)]) n (i + 1) else q)"
  by pat_completeness auto
termination
  by (relation "measure (\<lambda>(q, n, i). n - 1 - i)") auto

declare shift_queue.simps [simp del]

definition sem_post :: "rt_state \<Rightarrow> nat \<Rightarrow> outcome" where
  "sem_post s sem =
     (case get_semaphore_data s sem of
        None \<Rightarrow> Ret (- 1) NoWrite s
      | Some data \<Rightarrow>
          if \<not> sem_initialized data then Ret (- 1) NoWrite s
          else if queue_size data > 0 then
            (let woken_thread = waiting_queue data ! 0;
                 data1 = data\<lparr>waiting_queue :=
                                 shift_queue (waiting_queue data) (queue_size data) 0,
                               queue_size := queue_size data - 1\<rparr>;
                 s1 = put_semaphore_data s sem data1;
                 s2 = tcb_update woken_thread (\<lambda>t. t\<lparr>status := READY\<rparr>) s1
             in Ret 0 NoWrite s2)
          else if sem_value data < SEM_VALUE_MAX - 1 then
            Ret 0 NoWrite (put_semaphore_data s sem (data\<lparr>sem_value := sem_value data + 1\<rparr>))
          else Ret (- 1) NoWrite s)"

section \<open>Runs of the runtime\<close>

text \<open>
  A configuration is the state of the runtime together with the point at which the
  running thread stands.  A run is a sequence of steps of whichever thread is running.
  In user code the thread calls an operation; the gate keeps the signal out of the gated
  block of the operation, so that block is one step.  At a point inside the library the
  thread goes on with \<open>Proceed\<close>: behind \<open>init_threading\<close> with the gated block of
  \<open>pthread_create\<close>, before a \<open>longjmp\<close> with the jump, behind the \<open>setjmp\<close> of
  \<open>pthread_join\<close> with the rest of that call.  \<open>Tick\<close> is the timer signal; it can
  arrive at every point once \<open>init_threading\<close> has installed the handler and armed the
  timer.
\<close>

datatype call =
    Create nat nat nat
  | Exit nat
  | Join int nat
  | SemInit nat int nat bool bool
  | SemDestroy nat
  | SemWait nat bool
  | SemPost nat
  | Tick
  | Proceed

text \<open>
  The configuration behind a gated block, and the point behind a jump; none after \<open>exit\<close>
  or a jump through zero bytes.
\<close>

fun after :: "outcome \<Rightarrow> (rt_state \<times> point) option" where
  "after (Ret r w s) = Some (s, UserCode)"
| "after (Jumps s) = Some (s, BeforeLongjmp)"
| "after (Terminated c s) = None"

fun point_after :: "landing \<Rightarrow> point option" where
  "point_after Starts = Some UserCode"
| "point_after (Continues p) = Some p"
| "point_after (Resumes target_index value_ptr) = Some (AfterSetjmp target_index value_ptr)"
| "point_after (Returns r) = Some UserCode"
| "point_after Crashes = None"

fun proceed :: "rt_state \<Rightarrow> point \<Rightarrow> (rt_state \<times> point) option" where
  "proceed s UserCode = None"
| "proceed s (AfterInit f a m) = after (pthread_create_locked s f a m)"
| "proceed s BeforeLongjmp = map_option (Pair s) (point_after (longjmp s))"
| "proceed s (AfterSetjmp target_index value_ptr) =
     after (pthread_join_resumed s target_index value_ptr)"

text \<open>One step; \<open>None\<close> also when the step is not possible at the point.\<close>

fun exec :: "call \<Rightarrow> rt_state \<Rightarrow> point \<Rightarrow> (rt_state \<times> point) option" where
  "exec (Create f a m) s p =
     (if p \<noteq> UserCode then None
      else if initialized s then after (pthread_create s f a m)
      else Some (init_threading s, AfterInit f a m))"
| "exec (Exit v) s p = (if p \<noteq> UserCode then None else after (pthread_exit s v))"
| "exec (Join h v) s p = (if p \<noteq> UserCode then None else after (pthread_join s h v))"
| "exec (SemInit k sh v dm qm) s p =
     (if p \<noteq> UserCode then None else after (sem_init s k sh v dm qm))"
| "exec (SemDestroy k) s p = (if p \<noteq> UserCode then None else after (sem_destroy s k))"
| "exec (SemWait k rm) s p = (if p \<noteq> UserCode then None else after (sem_wait s k rm))"
| "exec (SemPost k) s p = (if p \<noteq> UserCode then None else after (sem_post s k))"
| "exec Tick s p = (if initialized s then after (signal_handler s p) else None)"
| "exec Proceed s p = proceed s p"

inductive reachable :: "rt_state \<Rightarrow> point \<Rightarrow> bool" where
  reach_boot: "reachable boot UserCode"
| reach_step: "reachable s p \<Longrightarrow> exec c s p = Some (s', p') \<Longrightarrow> reachable s' p'"

fun run :: "call list \<Rightarrow> rt_state \<times> point \<Rightarrow> (rt_state \<times> point) option" where
  "run [] sp = Some sp"
| "run (c # cs) sp =
     (case exec c (fst sp) (snd sp) of None \<Rightarrow> None | Some sp' \<Rightarrow> run cs sp')"

text \<open>The start of every run, and the state in which a run from the start ends.\<close>

definition start :: "rt_state \<times> point" where
  "start = (boot, UserCode)"

definition state_after :: "call list \<Rightarrow> rt_state" where
  "state_after cs = fst (the (run cs start))"

section \<open>Specification-level notions used in the statements\<close>

text \<open>
  The order in which one call of \<open>schedule\<close> is claimed to visit the slots: the
  \<open>num_threads\<close> slots after the current one, circularly.
\<close>

definition scan_order :: "rt_state \<Rightarrow> int list" where
  "scan_order s =
     map (\<lambda>k. (current_thread s + 1 + int k) mod num_threads s) [0..<nat (num_threads s)]"

text \<open>The slots in use whose status is \<open>RUNNING\<close>, in index order.\<close>

definition running_slots :: "rt_state \<Rightarrow> int list" where
  "running_slots s =
     filter (\<lambda>i. status (tcb s i) = RUNNING) (map int [0..<nat (num_threads s)])"

text \<open>
  The invariant of the runtime.  \<open>in_range s i\<close> says that \<open>i\<close> is a slot in use.
  \<open>table_ok\<close>: the array has its 150 slots, between 1 and 150 of them are in use and
  the current index is one of them.  \<open>running_is_current\<close>: no slot but the current one
  is \<open>RUNNING\<close>.

  A thread recorded as the joiner of a target \<open>t\<close> has not come back to user code since
  its \<open>pthread_join\<close>.  \<open>point_joins p t\<close> says that a thread standing at \<open>p\<close> can be in
  that situation: it stands before a \<open>longjmp\<close>, or behind the \<open>setjmp\<close> of the join on
  \<open>t\<close>.  \<open>ctx_joins c t\<close> says the same of a thread that is to be resumed through the
  buffer \<open>c\<close>.  \<open>joiners_ok\<close>: a recorded joiner is a slot in use with such a buffer.
  \<open>point_ok\<close>: if the running thread is a recorded joiner it stands at such a point, and
  a point behind the \<open>setjmp\<close> of a join names a slot in use.  \<open>joiner_not_current\<close>: no
  recorded joiner is the thread that runs.  \<open>contexts_ok\<close>: a buffer that leads behind
  the \<open>setjmp\<close> of a join names a slot in use.

  \<open>sems_ok\<close>: every directory entry is initialised, its live cells fit its buffer and
  hold slots in use, its value is below \<open>SEM_VALUE_MAX\<close>, and its value is 0 while a
  thread waits.  Before \<open>init_threading\<close> has run, the table is still the zero-filled
  one and the thread is in user code.
\<close>

definition in_range :: "rt_state \<Rightarrow> int \<Rightarrow> bool" where
  "in_range s i \<longleftrightarrow> 0 \<le> i \<and> i < num_threads s"

definition table_ok :: "rt_state \<Rightarrow> bool" where
  "table_ok s \<longleftrightarrow> length (tcb_array s) = 150 \<and> 1 \<le> num_threads s
     \<and> num_threads s \<le> MAX_THREADS \<and> in_range s (current_thread s)"

definition running_is_current :: "rt_state \<Rightarrow> bool" where
  "running_is_current s \<longleftrightarrow>
     (\<forall>i. in_range s i \<and> status (tcb s i) = RUNNING \<longrightarrow> i = current_thread s)"

definition none_running :: "rt_state \<Rightarrow> bool" where
  "none_running s \<longleftrightarrow> (\<forall>i. in_range s i \<longrightarrow> status (tcb s i) \<noteq> RUNNING)"

fun point_joins :: "point \<Rightarrow> int \<Rightarrow> bool" where
  "point_joins UserCode t = False"
| "point_joins (AfterInit f a m) t = False"
| "point_joins BeforeLongjmp t = True"
| "point_joins (AfterSetjmp target_index value_ptr) t = (target_index = t)"

definition ctx_joins :: "jmp_buf \<Rightarrow> int \<Rightarrow> bool" where
  "ctx_joins c t = (case point_after (land c) of None \<Rightarrow> True | Some p \<Rightarrow> point_joins p t)"

definition joiners_ok :: "rt_state \<Rightarrow> bool" where
  "joiners_ok s \<longleftrightarrow>
     (\<forall>t. in_range s t \<and> joined_by (tcb s t) \<noteq> - 1 \<longrightarrow>
        in_range s (joined_by (tcb s t))
        \<and> ctx_joins (ctx (tcb s (joined_by (tcb s t)))) t)"

definition point_ok :: "rt_state \<Rightarrow> point \<Rightarrow> bool" where
  "point_ok s p \<longleftrightarrow>
     (\<forall>t. in_range s t \<and> joined_by (tcb s t) = current_thread s \<longrightarrow> point_joins p t)
     \<and> (\<forall>t v. p = AfterSetjmp t v \<longrightarrow> in_range s t)"

definition joiner_not_current :: "rt_state \<Rightarrow> bool" where
  "joiner_not_current s \<longleftrightarrow> (\<forall>t. in_range s t \<longrightarrow> joined_by (tcb s t) \<noteq> current_thread s)"

definition contexts_ok :: "rt_state \<Rightarrow> bool" where
  "contexts_ok s \<longleftrightarrow>
     (\<forall>i t v. in_range s i \<and> point_after (land (ctx (tcb s i))) = Some (AfterSetjmp t v)
        \<longrightarrow> in_range s t)"

definition sem_ok :: "int \<Rightarrow> SemaphoreData \<Rightarrow> bool" where
  "sem_ok n d \<longleftrightarrow>
     sem_initialized d \<and> queue_size d \<le> queue_capacity d
     \<and> length (waiting_queue d) = queue_capacity d \<and> 0 < queue_capacity d
     \<and> (0 < queue_size d \<longrightarrow> sem_value d = 0) \<and> sem_value d < SEM_VALUE_MAX
     \<and> (\<forall>j < queue_size d. 0 \<le> waiting_queue d ! j \<and> waiting_queue d ! j < n)"

definition sems_ok :: "rt_state \<Rightarrow> bool" where
  "sems_ok s \<longleftrightarrow>
     length (semaphores s) \<le> MAX_SEMAPHORES
     \<and> (\<forall>e \<in> set (semaphores s). sem_ok (num_threads s) (snd e))"

definition runtime_inv :: "rt_state \<Rightarrow> point \<Rightarrow> bool" where
  "runtime_inv s p \<longleftrightarrow>
     sems_ok s
     \<and> (if initialized s
        then table_ok s \<and> running_is_current s \<and> joiners_ok s \<and> contexts_ok s \<and> point_ok s p
        else tcb_array s = tcb_array boot \<and> num_threads s = 0 \<and> current_thread s = 0
             \<and> p = UserCode)"

text \<open>
  \<open>user_inv\<close> is the invariant at the points where the thread is not a joiner: in user
  code and behind \<open>init_threading\<close>.
\<close>

definition user_inv :: "rt_state \<Rightarrow> bool" where
  "user_inv s \<longleftrightarrow>
     sems_ok s
     \<and> (if initialized s
        then table_ok s \<and> running_is_current s \<and> joiners_ok s \<and> joiner_not_current s
             \<and> contexts_ok s
        else tcb_array s = tcb_array boot \<and> num_threads s = 0 \<and> current_thread s = 0)"

section \<open>Reading and writing the thread table\<close>

lemma smod_nonneg: "0 \<le> (a::int) \<Longrightarrow> 0 < b \<Longrightarrow> a smod b = a mod b"
  by (simp add: signed_modulo_int_def abs_if sgn_if)

lemma tcb_update_globals [simp]:
  "num_threads (tcb_update i f s) = num_threads s"
  "current_thread (tcb_update i f s) = current_thread s"
  "initialized (tcb_update i f s) = initialized s"
  "semaphores (tcb_update i f s) = semaphores s"
  "length (tcb_array (tcb_update i f s)) = length (tcb_array s)"
  by (simp_all add: tcb_update_def)

lemma tcb_globals_update [simp]:
  "tcb (s\<lparr>current_thread := c\<rparr>) i = tcb s i"
  "tcb (s\<lparr>num_threads := n\<rparr>) i = tcb s i"
  "tcb (s\<lparr>initialized := b\<rparr>) i = tcb s i"
  "tcb (s\<lparr>semaphores := d\<rparr>) i = tcb s i"
  by (simp_all add: tcb_def)

lemma tcb_tcb_update_same:
  "0 \<le> i \<Longrightarrow> nat i < length (tcb_array s) \<Longrightarrow> tcb (tcb_update i f s) i = f (tcb s i)"
  by (simp add: tcb_def tcb_update_def)

lemma tcb_tcb_update_other:
  "0 \<le> i \<Longrightarrow> 0 \<le> j \<Longrightarrow> j \<noteq> i \<Longrightarrow> tcb (tcb_update i f s) j = tcb s j"
  by (simp add: tcb_def tcb_update_def)

lemma tcb_tcb_update:
  "0 \<le> i \<Longrightarrow> nat i < length (tcb_array s) \<Longrightarrow> 0 \<le> j
    \<Longrightarrow> tcb (tcb_update i f s) j = (if j = i then f (tcb s i) else tcb s j)"
  by (simp add: tcb_tcb_update_same tcb_tcb_update_other)

lemma all_exited_iff:
  "nat (num_threads s) \<le> length (tcb_array s)
    \<Longrightarrow> all_exited s \<longleftrightarrow> (\<forall>i. 0 \<le> i \<and> i < num_threads s \<longrightarrow> status (tcb s i) = EXITED)"
proof -
  assume le: "nat (num_threads s) \<le> length (tcb_array s)"
  have "all_exited s \<longleftrightarrow> (\<forall>k < nat (num_threads s). status (tcb_array s ! k) = EXITED)"
    using le by (simp add: all_exited_def list_all_length)
  also have "\<dots> \<longleftrightarrow> (\<forall>i. 0 \<le> i \<and> i < num_threads s \<longrightarrow> status (tcb s i) = EXITED)"
  proof
    assume h: "\<forall>k < nat (num_threads s). status (tcb_array s ! k) = EXITED"
    show "\<forall>i. 0 \<le> i \<and> i < num_threads s \<longrightarrow> status (tcb s i) = EXITED"
    proof (intro allI impI)
      fix i assume "0 \<le> i \<and> i < num_threads s"
      then have "nat i < nat (num_threads s)" by simp
      with h show "status (tcb s i) = EXITED" by (simp add: tcb_def)
    qed
  next
    assume h: "\<forall>i. 0 \<le> i \<and> i < num_threads s \<longrightarrow> status (tcb s i) = EXITED"
    show "\<forall>k < nat (num_threads s). status (tcb_array s ! k) = EXITED"
    proof (intro allI impI)
      fix k assume "k < nat (num_threads s)"
      then have "0 \<le> int k \<and> int k < num_threads s" by simp
      with h have "status (tcb s (int k)) = EXITED" by blast
      then show "status (tcb_array s ! k) = EXITED" by (simp add: tcb_def)
    qed
  qed
  finally show ?thesis .
qed

lemma sched_scan_done: "\<not> k < num_threads s \<Longrightarrow> sched_scan s k = (False, s)"
  by (subst sched_scan.simps) simp

lemma sched_scan_step:
  "k < num_threads s \<Longrightarrow> sched_scan s k =
     (let s1 = s\<lparr>current_thread := (current_thread s + 1) smod num_threads s\<rparr> in
      if status (tcb s1 (current_thread s1)) = READY
      then (True, tcb_update (current_thread s1) (\<lambda>t. t\<lparr>status := RUNNING\<rparr>) s1)
      else sched_scan s1 (k + 1))"
  by (subst sched_scan.simps) simp

lemma sched_scan_find:
  assumes "m = nat (num_threads s - k)" "0 \<le> k" "k \<le> num_threads s"
    "0 \<le> current_thread s" "current_thread s < num_threads s"
  shows "sched_scan s k =
     (case find (\<lambda>i. status (tcb s i) = READY)
             (map (\<lambda>j. (current_thread s + 1 + int j) mod num_threads s) [0..<m]) of
        None \<Rightarrow> (False, s\<lparr>current_thread := (current_thread s + int m) mod num_threads s\<rparr>)
      | Some i \<Rightarrow> (True, tcb_update i (\<lambda>t. t\<lparr>status := RUNNING\<rparr>) (s\<lparr>current_thread := i\<rparr>)))"
  using assms
proof (induction m arbitrary: s k)
  case 0
  then have "\<not> k < num_threads s" by simp
  then show ?case using 0 by (simp add: sched_scan_done)
next
  case (Suc m)
  let ?n = "num_threads s"
  let ?c = "current_thread s"
  let ?s1 = "s\<lparr>current_thread := (?c + 1) mod ?n\<rparr>"
  from Suc.prems have lt: "k < ?n" and npos: "0 < ?n" by simp_all
  have sm: "(?c + 1) smod ?n = (?c + 1) mod ?n"
    using Suc.prems npos by (simp add: smod_nonneg)
  have upt: "[0..<Suc m] = 0 # map Suc [0..<m]"
    by (simp add: upt_conv_Cons map_Suc_upt del: upt_Suc)
  have shift: "map (\<lambda>j. (?c + 1 + int j) mod ?n) [0..<Suc m]
      = ((?c + 1) mod ?n) # map (\<lambda>j. ((?c + 1) mod ?n + 1 + int j) mod ?n) [0..<m]"
  proof -
    have "((?c + 1) mod ?n + 1 + int j) mod ?n = (?c + 1 + int (Suc j)) mod ?n" for j
    proof -
      have "((?c + 1) mod ?n + 1 + int j) mod ?n = ((?c + 1) mod ?n + (1 + int j)) mod ?n"
        by (simp add: add.assoc)
      also have "\<dots> = ((?c + 1) + (1 + int j)) mod ?n"
        by (rule mod_add_left_eq)
      finally show ?thesis by (simp add: add.assoc)
    qed
    then show ?thesis unfolding upt by (simp add: o_def)
  qed
  show ?case
  proof (cases "status (tcb s ((?c + 1) mod ?n)) = READY")
    case True
    then show ?thesis
      unfolding shift using lt sm by (simp add: Let_def sched_scan_step)
  next
    case False
    have ih: "sched_scan ?s1 (k + 1) =
       (case find (\<lambda>i. status (tcb ?s1 i) = READY)
             (map (\<lambda>j. (current_thread ?s1 + 1 + int j) mod num_threads ?s1) [0..<m]) of
        None \<Rightarrow> (False, ?s1\<lparr>current_thread := (current_thread ?s1 + int m) mod num_threads ?s1\<rparr>)
      | Some i \<Rightarrow> (True, tcb_update i (\<lambda>t. t\<lparr>status := RUNNING\<rparr>) (?s1\<lparr>current_thread := i\<rparr>)))"
      using Suc.prems npos by (intro Suc.IH) simp_all
    have fin: "((?c + 1) mod ?n + int m) mod ?n = (?c + int (Suc m)) mod ?n"
    proof -
      have "((?c + 1) mod ?n + int m) mod ?n = ((?c + 1) + int m) mod ?n"
        by (rule mod_add_left_eq)
      moreover have "(?c + 1) + int m = ?c + int (Suc m)" by simp
      ultimately show ?thesis by (simp only:)
    qed
    have "sched_scan s k = sched_scan ?s1 (k + 1)"
      using lt sm False by (simp add: Let_def sched_scan_step)
    then show ?thesis
      unfolding shift using ih False fin by (simp split: option.splits)
  qed
qed

lemma scan_order_props:
  assumes "1 \<le> num_threads s"
  shows "hd (scan_order s) = (current_thread s + 1) mod num_threads s"
    and "length (scan_order s) = nat (num_threads s)"
    and "distinct (scan_order s)"
    and "set (scan_order s) = {0..<num_threads s}"
proof -
  let ?n = "num_threads s"
  let ?c = "current_thread s"
  from assms have "[0..<nat ?n] = 0 # [1..<nat ?n]"
    by (simp add: upt_conv_Cons)
  then show "hd (scan_order s) = (?c + 1) mod ?n"
    by (simp add: scan_order_def)
  show "length (scan_order s) = nat ?n" by (simp add: scan_order_def)
  have inj: "inj_on (\<lambda>k. (?c + 1 + int k) mod ?n) {0..<nat ?n}"
  proof (rule inj_onI)
    fix x y assume x: "x \<in> {0..<nat ?n}" and y: "y \<in> {0..<nat ?n}"
      and e: "(?c + 1 + int x) mod ?n = (?c + 1 + int y) mod ?n"
    from x y have b: "0 \<le> int x" "int x < ?n" "0 \<le> int y" "int y < ?n" by auto
    from e have "?n dvd (?c + 1 + int x) - (?c + 1 + int y)"
      by (simp only: mod_eq_dvd_iff)
    then have "?n dvd int x - int y" by simp
    then have "int x mod ?n = int y mod ?n" by (simp only: mod_eq_dvd_iff)
    with b show "x = y" by (simp only: mod_pos_pos_trivial int_int_eq)
  qed
  then show "distinct (scan_order s)"
    by (simp add: scan_order_def distinct_map)
  show "set (scan_order s) = {0..<?n}"
  proof (rule card_subset_eq)
    show "finite {0..<?n}" by simp
    show "set (scan_order s) \<subseteq> {0..<?n}"
      using assms by (auto simp: scan_order_def)
    show "card (set (scan_order s)) = card {0..<?n}"
      using inj by (simp add: scan_order_def card_image)
  qed
qed

lemma schedule_char:
  assumes "1 \<le> num_threads s" "0 \<le> current_thread s" "current_thread s < num_threads s"
    "nat (num_threads s) \<le> length (tcb_array s)"
  shows "schedule s =
     (case find (\<lambda>i. status (tcb s i) = READY) (scan_order s) of
        Some i \<Rightarrow> Continue (tcb_update i (\<lambda>t. t\<lparr>status := RUNNING\<rparr>) (s\<lparr>current_thread := i\<rparr>))
      | None \<Rightarrow>
          if (\<forall>i. 0 \<le> i \<and> i < num_threads s \<longrightarrow> status (tcb s i) = EXITED)
          then ProcessExit (cleanup_all_resources s)
          else if status (tcb s (current_thread s)) \<noteq> EXITED
                  \<and> status (tcb s (current_thread s)) \<noteq> BLOCKED
          then Continue (tcb_update (current_thread s) (\<lambda>t. t\<lparr>status := RUNNING\<rparr>) s)
          else Continue s)"
proof -
  let ?n = "num_threads s"
  have scan: "sched_scan s 0 =
     (case find (\<lambda>i. status (tcb s i) = READY) (scan_order s) of
        None \<Rightarrow> (False, s)
      | Some i \<Rightarrow> (True, tcb_update i (\<lambda>t. t\<lparr>status := RUNNING\<rparr>) (s\<lparr>current_thread := i\<rparr>)))"
    using sched_scan_find [of "nat ?n" s 0] assms
    by (simp add: scan_order_def cong: option.case_cong)
  show ?thesis
    unfolding schedule_def scan using assms(4)
    by (simp add: all_exited_iff split: option.splits)
qed

section \<open>The selection rule of the scheduler\<close>



section \<open>The invariant is preserved by every operation\<close>

lemma tcb_tcb_update_gen:
  "tcb (tcb_update i f s) t =
     (if nat t = nat i \<and> nat i < length (tcb_array s) then f (tcb s t) else tcb s t)"
  by (auto simp: tcb_def tcb_update_def list_update_beyond)

lemma in_range_update [simp]:
  "in_range (tcb_update i f s) j = in_range s j"
  "in_range (s\<lparr>current_thread := c\<rparr>) j = in_range s j"
  "in_range (s\<lparr>semaphores := d\<rparr>) j = in_range s j"
  by (simp_all add: in_range_def)

lemma in_range_nat_eq: "in_range s i \<Longrightarrow> in_range s j \<Longrightarrow> nat i = nat j \<longleftrightarrow> i = j"
  by (auto simp: in_range_def)

lemma tcb_update_in_range:
  assumes "table_ok s" "in_range s i" "in_range s t"
  shows "tcb (tcb_update i f s) t = (if t = i then f (tcb s i) else tcb s t)"
proof -
  from assms have "nat i < length (tcb_array s)"
    unfolding table_ok_def in_range_def MAX_THREADS_def by linarith
  moreover from assms have "nat t = nat i \<longleftrightarrow> t = i" by (simp add: in_range_nat_eq)
  ultimately show ?thesis by (simp add: tcb_tcb_update_gen)
qed

text \<open>Predicates that read only some fields do not see updates of the others.\<close>

lemma table_ok_update [simp]:
  "table_ok (tcb_update i f s) = table_ok s"
  "table_ok (s\<lparr>semaphores := d\<rparr>) = table_ok s"
  by (simp_all add: table_ok_def)

lemma ctx_joins_zeroed [simp]: "ctx_joins Zeroed t"
  by (simp add: ctx_joins_def land_def)

lemma ctx_joins_simps [simp]:
  "ctx_joins Fabricated t = False"
  "ctx_joins SavedInSemWait t = False"
  "ctx_joins (SavedInJoin t' v) t = (t' = t)"
  "ctx_joins (SavedInHandler p) t = point_joins p t"
  by (simp_all add: ctx_joins_def land_def)

lemma land_simps [simp]:
  "point_after (land Zeroed) = None"
  "point_after (land Fabricated) = Some UserCode"
  "point_after (land SavedInSemWait) = Some UserCode"
  "point_after (land (SavedInJoin t v)) = Some (AfterSetjmp t v)"
  "point_after (land (SavedInHandler p)) = Some p"
  by (simp_all add: land_def)

lemma frame_joiners_ok:
  assumes "num_threads s' = num_threads s"
    and "\<And>t. in_range s t \<Longrightarrow> joined_by (tcb s' t) = joined_by (tcb s t)"
    and "\<And>t. in_range s t \<Longrightarrow> ctx (tcb s' t) = ctx (tcb s t)"
    and "joiners_ok s"
  shows "joiners_ok s'"
  unfolding joiners_ok_def
proof (intro allI impI)
  fix t assume a: "in_range s' t \<and> joined_by (tcb s' t) \<noteq> - 1"
  let ?j = "joined_by (tcb s t)"
  from a assms(1) have t: "in_range s t" by (simp add: in_range_def)
  with a assms(2) have j: "joined_by (tcb s' t) = ?j" "?j \<noteq> - 1" by simp_all
  with t assms(4) have r: "in_range s ?j" and c: "ctx_joins (ctx (tcb s ?j)) t"
    unfolding joiners_ok_def by blast+
  from r assms(3) have "ctx (tcb s' ?j) = ctx (tcb s ?j)" by simp
  with r c j assms(1)
  show "in_range s' (joined_by (tcb s' t))
        \<and> ctx_joins (ctx (tcb s' (joined_by (tcb s' t)))) t"
    by (simp add: in_range_def)
qed

lemma frame_contexts_ok:
  assumes "num_threads s' = num_threads s"
    and "\<And>t. in_range s t \<Longrightarrow> ctx (tcb s' t) = ctx (tcb s t)"
    and "contexts_ok s"
  shows "contexts_ok s'"
  unfolding contexts_ok_def
proof (intro allI impI)
  fix i t v
  assume a: "in_range s' i \<and> point_after (land (ctx (tcb s' i))) = Some (AfterSetjmp t v)"
  with assms(1) have i: "in_range s i" by (simp add: in_range_def)
  with a assms(2) have "point_after (land (ctx (tcb s i))) = Some (AfterSetjmp t v)" by simp
  with i assms(3) have "in_range s t" unfolding contexts_ok_def by blast
  with assms(1) show "in_range s' t" by (simp add: in_range_def)
qed

lemma sems_ok_update [simp]:
  "sems_ok (tcb_update i f s) = sems_ok s"
  "sems_ok (s\<lparr>current_thread := c\<rparr>) = sems_ok s"
  by (simp_all add: sems_ok_def)

lemma find_thread_done: "\<not> i < num_threads s \<Longrightarrow> find_thread s h i = - 1"
  by (subst find_thread.simps) simp

lemma find_thread_hit:
  "i < num_threads s \<Longrightarrow> thread_id (tcb s i) = h \<Longrightarrow> find_thread s h i = i"
  by (subst find_thread.simps) simp

lemma find_thread_miss:
  "i < num_threads s \<Longrightarrow> thread_id (tcb s i) \<noteq> h
    \<Longrightarrow> find_thread s h i = find_thread s h (i + 1)"
  by (subst find_thread.simps) simp

lemma find_thread_range:
  "0 \<le> i \<Longrightarrow> find_thread s h i = - 1 \<or> in_range s (find_thread s h i)"
proof (induction s h i rule: find_thread.induct)
  case (1 s thread i)
  show ?case
  proof (cases "i < num_threads s")
    case False
    then show ?thesis by (simp add: find_thread_done)
  next
    case lt: True
    show ?thesis
    proof (cases "thread_id (tcb s i) = thread")
      case True
      with lt 1(2) show ?thesis by (simp add: find_thread_hit in_range_def)
    next
      case False
      with lt 1 have "find_thread s thread (i + 1) = - 1
        \<or> in_range s (find_thread s thread (i + 1))"
        by simp
      with lt False show ?thesis by (simp add: find_thread_miss)
    qed
  qed
qed

lemma schedule_cases:
  assumes "table_ok s"
  obtains (pick) u where "in_range s u" "status (tcb s u) = READY"
      "schedule s = Continue (tcb_update u (\<lambda>t. t\<lparr>status := RUNNING\<rparr>) (s\<lparr>current_thread := u\<rparr>))"
    | (halt) "schedule s = ProcessExit (cleanup_all_resources s)"
    | (stay) "status (tcb s (current_thread s)) \<noteq> EXITED"
      "status (tcb s (current_thread s)) \<noteq> BLOCKED"
      "schedule s = Continue (tcb_update (current_thread s) (\<lambda>t. t\<lparr>status := RUNNING\<rparr>) s)"
    | (stuck) "schedule s = Continue s"
proof -
  from assms have pre: "1 \<le> num_threads s" "0 \<le> current_thread s"
      "current_thread s < num_threads s" "nat (num_threads s) \<le> length (tcb_array s)"
    unfolding table_ok_def in_range_def MAX_THREADS_def by linarith+
  note ch = schedule_char [OF pre]
  show thesis
  proof (cases "find (\<lambda>i. status (tcb s i) = READY) (scan_order s)")
    case (Some u)
    then have "u \<in> set (scan_order s)" and r: "status (tcb s u) = READY"
      by (auto simp: find_Some_iff)
    then have "in_range s u"
      using scan_order_props(4) [OF pre(1)] by (simp add: in_range_def)
    with r Some ch show thesis by (intro pick [of u]) simp_all
  next
    case None
    show thesis
    proof (cases "\<forall>i. 0 \<le> i \<and> i < num_threads s \<longrightarrow> status (tcb s i) = EXITED")
      case True
      with ch None have "schedule s = ProcessExit (cleanup_all_resources s)" by simp
      then show thesis by (rule halt)
    next
      case False
      show thesis
      proof (cases "status (tcb s (current_thread s)) \<noteq> EXITED
                  \<and> status (tcb s (current_thread s)) \<noteq> BLOCKED")
        case True
        with ch None False have "schedule s
            = Continue (tcb_update (current_thread s) (\<lambda>t. t\<lparr>status := RUNNING\<rparr>) s)"
          by simp
        with True show thesis by (intro stay) simp_all
      next
        case nr: False
        with ch None False have "schedule s = Continue s" by simp
        then show thesis by (rule stuck)
      qed
    qed
  qed
qed

lemma table_ok_current [simp]:
  "table_ok (s\<lparr>current_thread := u\<rparr>) \<longleftrightarrow>
     length (tcb_array s) = 150 \<and> 1 \<le> num_threads s \<and> num_threads s \<le> MAX_THREADS
     \<and> in_range s u"
  by (simp add: table_ok_def in_range_def)

lemma none_running_imp:
  "none_running s \<Longrightarrow> running_is_current s"
  by (auto simp: none_running_def running_is_current_def)

lemma sched_continue:
  assumes "table_ok s" "none_running s" "schedule s = Continue s1"
  shows "table_ok s1 \<and> running_is_current s1 \<and> num_threads s1 = num_threads s
    \<and> semaphores s1 = semaphores s \<and> initialized s1 = initialized s
    \<and> (\<forall>t. joined_by (tcb s1 t) = joined_by (tcb s t))
    \<and> (\<forall>t. ctx (tcb s1 t) = ctx (tcb s t))"
  using assms(1)
proof (cases rule: schedule_cases)
  case (pick u)
  let ?s0 = "s\<lparr>current_thread := u\<rparr>"
  from pick assms have s1: "s1 = tcb_update u (\<lambda>t. t\<lparr>status := RUNNING\<rparr>) ?s0" by simp
  from assms(1) pick(1) have ok0: "table_ok ?s0" by (simp add: table_ok_def)
  have "running_is_current s1"
    unfolding running_is_current_def
  proof (intro allI impI)
    fix i assume a: "in_range s1 i \<and> status (tcb s1 i) = RUNNING"
    then have i: "in_range ?s0 i" by (simp add: s1)
    show "i = current_thread s1"
    proof (rule ccontr)
      assume "i \<noteq> current_thread s1"
      then have "i \<noteq> u" by (simp add: s1)
      with ok0 pick(1) i have "tcb s1 i = tcb s i"
        by (simp add: s1 tcb_update_in_range)
      with a i assms(2) show False by (simp add: none_running_def)
    qed
  qed
  with ok0 show ?thesis by (simp add: s1 tcb_tcb_update_gen)
next
  case halt
  with assms show ?thesis by simp
next
  case stay
  let ?c = "current_thread s"
  from stay assms have s1: "s1 = tcb_update ?c (\<lambda>t. t\<lparr>status := RUNNING\<rparr>) s" by simp
  from assms(1) have c: "in_range s ?c" by (simp add: table_ok_def)
  have "running_is_current s1"
    unfolding running_is_current_def
  proof (intro allI impI)
    fix i assume a: "in_range s1 i \<and> status (tcb s1 i) = RUNNING"
    then have i: "in_range s i" by (simp add: s1)
    show "i = current_thread s1"
    proof (rule ccontr)
      assume "i \<noteq> current_thread s1"
      then have "i \<noteq> ?c" by (simp add: s1)
      with assms(1) c i have "tcb s1 i = tcb s i"
        by (simp add: s1 tcb_update_in_range)
      with a i assms(2) show False by (simp add: none_running_def)
    qed
  qed
  with assms(1) show ?thesis by (simp add: s1 tcb_tcb_update_gen)
next
  case stuck
  with assms show ?thesis by (simp add: none_running_imp)
qed

lemma wipe_fields [simp]:
  "status (wipe t) = EXITED" "joined_by (wipe t) = - 1" "ctx (wipe t) = Zeroed"
  "has_been_joined (wipe t) = True" "thread_id (wipe t) = 0" "stack (wipe t) = stack t"
  "return_value (wipe t) = 0"
  by (simp_all add: wipe_def)

lemma reap_globals [simp]:
  "num_threads (reap t s) = num_threads s"
  "current_thread (reap t s) = current_thread s"
  "initialized (reap t s) = initialized s"
  "semaphores (reap t s) = semaphores s"
  "length (tcb_array (reap t s)) = length (tcb_array s)"
  "in_range (reap t s) i = in_range s i"
  "table_ok (reap t s) = table_ok s"
  "sems_ok (reap t s) = sems_ok s"
  by (simp_all add: reap_def)

lemma tcb_reap:
  assumes "table_ok s" "in_range s t0" "in_range s t"
  shows "status (tcb (reap t0 s) t) = (if t = t0 then EXITED else status (tcb s t))"
    and "joined_by (tcb (reap t0 s) t) = (if t = t0 then - 1 else joined_by (tcb s t))"
    and "ctx (tcb (reap t0 s) t) = (if t = t0 then Zeroed else ctx (tcb s t))"
  using assms by (simp_all add: reap_def tcb_update_in_range)

lemma reap_running:
  assumes "table_ok s" "in_range s t0" "running_is_current s"
  shows "running_is_current (reap t0 s)"
  using assms unfolding running_is_current_def
  by (auto simp: tcb_reap split: if_splits)

lemma reap_contexts:
  assumes "table_ok s" "in_range s t0" "contexts_ok s"
  shows "contexts_ok (reap t0 s)"
  unfolding contexts_ok_def
proof (intro allI impI)
  fix i t v
  assume a: "in_range (reap t0 s) i
    \<and> point_after (land (ctx (tcb (reap t0 s) i))) = Some (AfterSetjmp t v)"
  then have i: "in_range s i" by simp
  with a assms(1,2) have "i \<noteq> t0" "point_after (land (ctx (tcb s i))) = Some (AfterSetjmp t v)"
    by (auto simp: tcb_reap land_def split: if_splits)
  with i assms(3) show "in_range (reap t0 s) t" unfolding contexts_ok_def by auto
qed

lemma reap_joiners:
  assumes "table_ok s" "in_range s t0" "joiners_ok s"
  shows "joiners_ok (reap t0 s)"
  unfolding joiners_ok_def
proof (intro allI impI)
  fix t assume a: "in_range (reap t0 s) t \<and> joined_by (tcb (reap t0 s) t) \<noteq> - 1"
  let ?j = "joined_by (tcb s t)"
  from a have t: "in_range s t" by simp
  with a assms(1,2) have ne: "t \<noteq> t0" and j: "joined_by (tcb (reap t0 s) t) = ?j" "?j \<noteq> - 1"
    by (auto simp: tcb_reap split: if_splits)
  with t assms(3) have r: "in_range s ?j" and c: "ctx_joins (ctx (tcb s ?j)) t"
    unfolding joiners_ok_def by blast+
  from r assms(1,2) have "ctx (tcb (reap t0 s) ?j) = (if ?j = t0 then Zeroed else ctx (tcb s ?j))"
    by (simp add: tcb_reap)
  with c r j
  show "in_range (reap t0 s) (joined_by (tcb (reap t0 s) t))
        \<and> ctx_joins (ctx (tcb (reap t0 s) (joined_by (tcb (reap t0 s) t)))) t"
    by (simp add: ctx_joins_zeroed)
qed

lemma reap_joiner_not_current:
  assumes "table_ok s" "in_range s t0" "joiner_not_current s"
  shows "joiner_not_current (reap t0 s)"
  using assms unfolding joiner_not_current_def
  by (auto simp: tcb_reap table_ok_def in_range_def split: if_splits)

lemma point_ok_user: "point_ok s UserCode \<longleftrightarrow> joiner_not_current s"
  by (auto simp: point_ok_def joiner_not_current_def)

lemma point_ok_after_init: "point_ok s (AfterInit f a m) \<longleftrightarrow> joiner_not_current s"
  by (auto simp: point_ok_def joiner_not_current_def)

lemma point_ok_before_longjmp [simp]: "point_ok s BeforeLongjmp"
  by (simp add: point_ok_def)

lemma runtime_inv_user: "runtime_inv s UserCode \<longleftrightarrow> user_inv s"
  by (auto simp: runtime_inv_def user_inv_def point_ok_user)

lemma runtime_inv_after_init:
  "runtime_inv s (AfterInit f a m) \<longleftrightarrow> initialized s \<and> user_inv s"
  by (auto simp: runtime_inv_def user_inv_def point_ok_after_init)

text \<open>The jump: the current thread arrives where its buffer leads.\<close>

lemma longjmp_inv:
  assumes "runtime_inv s BeforeLongjmp" "initialized s" "point_after (longjmp s) = Some p'"
  shows "runtime_inv s p'"
proof -
  let ?c = "current_thread s"
  from assms(1,2) have t: "table_ok s" and j: "joiners_ok s" and c: "contexts_ok s"
    by (simp_all add: runtime_inv_def)
  from t have cr: "in_range s ?c" by (simp add: table_ok_def)
  from assms(3) have l: "point_after (land (ctx (tcb s ?c))) = Some p'"
    by (simp add: longjmp_def)
  have "point_ok s p'"
    unfolding point_ok_def
  proof (intro conjI allI impI)
    fix t' assume a: "in_range s t' \<and> joined_by (tcb s t') = ?c"
    moreover from cr have "?c \<noteq> - 1" by (simp add: in_range_def)
    ultimately have "ctx_joins (ctx (tcb s ?c)) t'"
      using j unfolding joiners_ok_def by metis
    with l show "point_joins p' t'" by (simp add: ctx_joins_def)
  next
    fix t' v assume "p' = AfterSetjmp t' v"
    with l cr c show "in_range s t'" unfolding contexts_ok_def by blast
  qed
  with assms(1,2) show ?thesis by (simp add: runtime_inv_def)
qed

text \<open>The rest of \<open>pthread_join\<close> behind its \<open>setjmp\<close>.\<close>

lemma pthread_join_resumed_inv:
  assumes "runtime_inv s (AfterSetjmp t0 v)" "initialized s"
  shows "runtime_inv (reap t0 s) UserCode"
proof -
  let ?c = "current_thread s"
  from assms have t: "table_ok s" and u: "running_is_current s" and j: "joiners_ok s"
    and c: "contexts_ok s" and q: "sems_ok s" and po: "point_ok s (AfterSetjmp t0 v)"
    by (simp_all add: runtime_inv_def)
  from po have t0: "in_range s t0" by (simp add: point_ok_def)
  from t have cr: "in_range s ?c" by (simp add: table_ok_def)
  have "joiner_not_current (reap t0 s)"
    unfolding joiner_not_current_def
  proof (intro allI impI notI)
    fix t' assume t': "in_range (reap t0 s) t'"
      and e: "joined_by (tcb (reap t0 s) t') = current_thread (reap t0 s)"
    from cr have c1: "?c \<noteq> - 1" by (simp add: in_range_def)
    from t' e t0 t c1 have ne: "t' \<noteq> t0" and jb: "joined_by (tcb s t') = ?c"
      by (auto simp: tcb_reap split: if_splits)
    from t' jb po have "point_joins (AfterSetjmp t0 v) t'" by (simp add: point_ok_def)
    with ne show False by simp
  qed
  with assms(2) t t0 u j c q show ?thesis
    by (simp add: runtime_inv_user user_inv_def reap_running reap_contexts reap_joiners)
qed

lemma sems_ok_cong:
  "semaphores s' = semaphores s \<Longrightarrow> num_threads s' = num_threads s \<Longrightarrow> sems_ok s' = sems_ok s"
  by (simp add: sems_ok_def)

text \<open>The end of a yielding path: \<open>schedule\<close> with no record \<open>RUNNING\<close>.\<close>

lemma yield_inv:
  assumes "initialized s" "table_ok s" "none_running s" "joiners_ok s" "contexts_ok s"
    "sems_ok s" "after (schedule_and_unlock s) = Some (s', p')"
  shows "runtime_inv s' p'"
proof (cases "schedule s")
  case (ProcessExit s1)
  with assms(7) show ?thesis by (simp add: schedule_and_unlock_def)
next
  case (Continue s1)
  note sc = sched_continue [OF assms(2,3) Continue]
  from sc have n: "num_threads s1 = num_threads s" by simp
  have j: "joiners_ok s1"
    by (rule frame_joiners_ok [OF n _ _ assms(4)]) (simp_all add: sc)
  have c: "contexts_ok s1"
    by (rule frame_contexts_ok [OF n _ assms(5)]) (simp add: sc)
  from sc assms(6) have q: "sems_ok s1" by (simp add: sems_ok_cong [of s1 s])
  from Continue assms(7) have "s' = s1" "p' = BeforeLongjmp"
    by (simp_all add: schedule_and_unlock_def)
  with sc assms(1) j c q show ?thesis by (simp add: runtime_inv_def)
qed

lemma all_exited_uninit: "num_threads s = 0 \<Longrightarrow> all_exited s"
  by (simp add: all_exited_def)

lemma yield_uninit:
  assumes "num_threads s = 0"
  shows "after (schedule_and_unlock s) = None"
proof -
  from assms have "sched_scan s 0 = (False, s)" by (simp add: sched_scan_done)
  with assms have "schedule s = ProcessExit (cleanup_all_resources s)"
    by (simp add: schedule_def all_exited_uninit)
  then show ?thesis by (simp add: schedule_and_unlock_def)
qed

subsection \<open>The semaphore directory\<close>

lemma lookup_sem_in: "lookup_sem dir k = Some d \<Longrightarrow> (k, d) \<in> set dir"
  by (induction dir k rule: lookup_sem.induct) (auto split: if_splits)

lemma store_sem_set: "e \<in> set (store_sem dir k d') \<Longrightarrow> e \<in> set dir \<or> e = (k, d')"
  by (induction dir k d' rule: store_sem.induct) (auto split: if_splits)

lemma store_sem_length [simp]: "length (store_sem dir k d') = length dir"
  by (induction dir k d' rule: store_sem.induct) auto

lemma remove_first_set: "e \<in> set (remove_first dir k) \<Longrightarrow> e \<in> set dir"
  by (induction dir k rule: remove_first.induct) (auto split: if_splits)

lemma remove_first_length: "length (remove_first dir k) \<le> length dir"
  by (induction dir k rule: remove_first.induct) auto

lemma put_semaphore_data_fields [simp]:
  "tcb_array (put_semaphore_data s k d) = tcb_array s"
  "num_threads (put_semaphore_data s k d) = num_threads s"
  "current_thread (put_semaphore_data s k d) = current_thread s"
  "initialized (put_semaphore_data s k d) = initialized s"
  "tcb (put_semaphore_data s k d) i = tcb s i"
  "in_range (put_semaphore_data s k d) i = in_range s i"
  by (simp_all add: put_semaphore_data_def tcb_def in_range_def)

lemma thread_preds_semaphores [simp]:
  "table_ok (put_semaphore_data s k d) = table_ok s"
  "running_is_current (put_semaphore_data s k d) = running_is_current s"
  "none_running (put_semaphore_data s k d) = none_running s"
  "joiners_ok (put_semaphore_data s k d) = joiners_ok s"
  "joiner_not_current (put_semaphore_data s k d) = joiner_not_current s"
  "contexts_ok (put_semaphore_data s k d) = contexts_ok s"
  by (simp_all add: table_ok_def running_is_current_def none_running_def joiners_ok_def
      joiner_not_current_def contexts_ok_def)

lemma thread_preds_semaphores_upd [simp]:
  "running_is_current (s\<lparr>semaphores := d\<rparr>) = running_is_current s"
  "joiners_ok (s\<lparr>semaphores := d\<rparr>) = joiners_ok s"
  "joiner_not_current (s\<lparr>semaphores := d\<rparr>) = joiner_not_current s"
  "contexts_ok (s\<lparr>semaphores := d\<rparr>) = contexts_ok s"
  by (simp_all add: running_is_current_def joiners_ok_def
      joiner_not_current_def contexts_ok_def)

lemma sems_ok_lookup:
  "sems_ok s \<Longrightarrow> get_semaphore_data s k = Some d \<Longrightarrow> sem_ok (num_threads s) d"
  by (auto simp: sems_ok_def get_semaphore_data_def dest!: lookup_sem_in)

lemma sems_ok_put:
  "sems_ok s \<Longrightarrow> sem_ok (num_threads s) d' \<Longrightarrow> sems_ok (put_semaphore_data s k d')"
  by (auto simp: sems_ok_def put_semaphore_data_def dest!: store_sem_set)

lemma sem_ok_empty: "sem_ok 0 d \<Longrightarrow> queue_size d = 0"
proof (rule ccontr)
  assume a: "sem_ok 0 d" and "queue_size d \<noteq> 0"
  then have "0 < queue_size d" by simp
  with a have "0 \<le> waiting_queue d ! 0 \<and> waiting_queue d ! 0 < 0"
    unfolding sem_ok_def by blast
  then show False by arith
qed

lemma shift_queue_done: "\<not> i < n - 1 \<Longrightarrow> shift_queue q n i = q"
  by (subst shift_queue.simps) simp

lemma shift_queue_step:
  "i < n - 1 \<Longrightarrow> shift_queue q n i = shift_queue (q[i := q ! (i + 1)]) n (i + 1)"
  by (subst shift_queue.simps) simp

lemma shift_queue_spec:
  "n \<le> length q \<Longrightarrow>
     length (shift_queue q n i) = length q
     \<and> (\<forall>j. shift_queue q n i ! j = (if i \<le> j \<and> j < n - 1 then q ! (j + 1) else q ! j))"
proof (induction q n i rule: shift_queue.induct)
  case (1 q n i)
  show ?case
  proof (cases "i < n - 1")
    case False
    then show ?thesis by (simp add: shift_queue_done)
  next
    case True
    let ?q1 = "q[i := q ! (i + 1)]"
    from True 1(2) have il: "i < length q" by simp
    from 1 True have ih: "length (shift_queue ?q1 n (i + 1)) = length ?q1
      \<and> (\<forall>j. shift_queue ?q1 n (i + 1) ! j
            = (if i + 1 \<le> j \<and> j < n - 1 then ?q1 ! (j + 1) else ?q1 ! j))"
      by simp
    have st: "shift_queue q n i = shift_queue ?q1 n (i + 1)"
      using True by (rule shift_queue_step)
    have "shift_queue ?q1 n (i + 1) ! j
        = (if i \<le> j \<and> j < n - 1 then q ! (j + 1) else q ! j)" for j
    proof -
      from ih have "shift_queue ?q1 n (i + 1) ! j
          = (if i + 1 \<le> j \<and> j < n - 1 then ?q1 ! (j + 1) else ?q1 ! j)"
        by blast
      also have "\<dots> = (if i \<le> j \<and> j < n - 1 then q ! (j + 1) else q ! j)"
        using il True by (cases "j = i") (simp_all add: nth_list_update)
      finally show ?thesis .
    qed
    with ih show ?thesis unfolding st by simp
  qed
qed

lemma sem_post_inv:
  assumes "user_inv s" "after (sem_post s k) = Some (s', p')"
  shows "user_inv s' \<and> p' = UserCode"
proof (cases "get_semaphore_data s k")
  case None
  with assms show ?thesis by (auto simp: sem_post_def)
next
  case (Some d)
  from assms(1) have q: "sems_ok s" by (simp add: user_inv_def)
  note ok = sems_ok_lookup [OF q Some]
  then have ini: "sem_initialized d" by (simp add: sem_ok_def)
  show ?thesis
  proof (cases "0 < queue_size d")
    case False
    let ?d1 = "d\<lparr>sem_value := sem_value d + 1\<rparr>"
    show ?thesis
    proof (cases "sem_value d < SEM_VALUE_MAX - 1")
      case True
      with False Some ini assms(2) have s': "s' = put_semaphore_data s k ?d1"
        and p': "p' = UserCode"
        by (auto simp: sem_post_def)
      from ok True False have "sem_ok (num_threads s) ?d1" by (simp add: sem_ok_def)
      with q have "sems_ok s'" unfolding s' by (rule sems_ok_put)
      with assms(1) p' show ?thesis by (simp add: user_inv_def s')
    next
      case nv: False
      with False Some ini assms show ?thesis by (auto simp: sem_post_def)
    qed
  next
    case True
    let ?w = "waiting_queue d ! 0"
    let ?d1 = "d\<lparr>waiting_queue := shift_queue (waiting_queue d) (queue_size d) 0,
                  queue_size := queue_size d - 1\<rparr>"
    let ?s1 = "put_semaphore_data s k ?d1"
    from True Some ini assms(2)
    have s': "s' = tcb_update ?w (\<lambda>t. t\<lparr>status := READY\<rparr>) ?s1" and p': "p' = UserCode"
      by (auto simp: sem_post_def Let_def)
    have init: "initialized s"
    proof (rule ccontr)
      assume "\<not> initialized s"
      with assms(1) have "num_threads s = 0" by (simp add: user_inv_def)
      with ok have "queue_size d = 0" by (simp add: sem_ok_empty)
      with True show False by simp
    qed
    from ok have le: "queue_size d \<le> length (waiting_queue d)" by (simp add: sem_ok_def)
    note sh = shift_queue_spec [OF le, of 0]
    have e: "\<forall>j < queue_size d - 1.
        0 \<le> shift_queue (waiting_queue d) (queue_size d) 0 ! j
        \<and> shift_queue (waiting_queue d) (queue_size d) 0 ! j < num_threads s"
    proof (intro allI impI)
      fix j assume jl: "j < queue_size d - 1"
      then have "j + 1 < queue_size d" by simp
      with ok have "0 \<le> waiting_queue d ! (j + 1) \<and> waiting_queue d ! (j + 1) < num_threads s"
        unfolding sem_ok_def by blast
      moreover from sh jl
      have "shift_queue (waiting_queue d) (queue_size d) 0 ! j = waiting_queue d ! (j + 1)"
        by simp
      ultimately show "0 \<le> shift_queue (waiting_queue d) (queue_size d) 0 ! j
        \<and> shift_queue (waiting_queue d) (queue_size d) 0 ! j < num_threads s"
        by simp
    qed
    from ok True have v: "sem_value d = 0" by (simp add: sem_ok_def)
    from ok have "queue_size d \<le> queue_capacity d" by (simp add: sem_ok_def)
    then have "queue_size d - 1 \<le> queue_capacity d" by arith
    with ok sh e v have "sem_ok (num_threads s) ?d1"
      by (simp add: sem_ok_def)
    with q have q1: "sems_ok ?s1" by (rule sems_ok_put)
    from ok True have w: "in_range s ?w" unfolding sem_ok_def in_range_def by blast
    from assms(1) init have t: "table_ok s" and u: "running_is_current s"
      and j: "joiners_ok s" and jc: "joiner_not_current s" and c: "contexts_ok s"
      by (simp_all add: user_inv_def)
    have u': "running_is_current s'"
      unfolding running_is_current_def
    proof (intro allI impI)
      fix i assume a: "in_range s' i \<and> status (tcb s' i) = RUNNING"
      then have i: "in_range s i" by (simp add: s')
      from a have "status (tcb s i) = RUNNING"
        by (simp add: s' tcb_tcb_update_gen split: if_splits)
      with i u show "i = current_thread s'" by (simp add: running_is_current_def s')
    qed
    have j': "joiners_ok s'"
      by (rule frame_joiners_ok [OF _ _ _ j]) (simp_all add: s' tcb_tcb_update_gen)
    have c': "contexts_ok s'"
      by (rule frame_contexts_ok [OF _ _ c]) (simp_all add: s' tcb_tcb_update_gen)
    have jc': "joiner_not_current s'"
      using jc unfolding joiner_not_current_def s' by (simp add: tcb_tcb_update_gen)
    from q1 t u' j' c' jc' init p' show ?thesis by (simp add: user_inv_def s')
  qed
qed

lemma sem_init_inv:
  assumes "user_inv s" "after (sem_init s k sh v dm qm) = Some (s', p')"
  shows "user_inv s' \<and> p' = UserCode"
proof (cases "sh \<noteq> 0 \<or> v \<ge> SEM_VALUE_MAX \<or> \<not> dm \<or> \<not> qm
    \<or> length (semaphores s) \<ge> MAX_SEMAPHORES")
  case True
  with assms(2) have "s' = s \<and> p' = UserCode"
    by (auto simp: sem_init_def add_semaphore_mapping_def Let_def split: if_splits)
  with assms(1) show ?thesis by simp
next
  case False
  let ?d = "\<lparr>sem_initialized = True, sem_value = v, waiting_queue = replicate 16 0,
              queue_size = 0, queue_capacity = 16\<rparr>"
  from False assms(2) have s': "s' = s\<lparr>semaphores := semaphores s @ [(k, ?d)]\<rparr>"
    and p': "p' = UserCode"
    by (auto simp: sem_init_def add_semaphore_mapping_def Let_def)
  from False have "sem_ok (num_threads s) ?d" by (simp add: sem_ok_def)
  with assms(1) False have "sems_ok s'"
    by (auto simp: user_inv_def sems_ok_def s')
  with assms(1) p' show ?thesis by (simp add: user_inv_def s')
qed

lemma sem_destroy_inv:
  assumes "user_inv s" "after (sem_destroy s k) = Some (s', p')"
  shows "user_inv s' \<and> p' = UserCode"
proof (cases "get_semaphore_data s k")
  case None
  with assms show ?thesis by (auto simp: sem_destroy_def)
next
  case (Some d)
  show ?thesis
  proof (cases "sem_initialized d")
    case False
    with Some assms show ?thesis by (auto simp: sem_destroy_def)
  next
    case True
    with Some assms(2) have s': "s' = s\<lparr>semaphores := remove_first (semaphores s) k\<rparr>"
      and p': "p' = UserCode"
      by (auto simp: sem_destroy_def remove_semaphore_mapping_def)
    from assms(1) have "sems_ok s" by (simp add: user_inv_def)
    then have "sems_ok s'"
      using remove_first_length [of "semaphores s" k]
      by (auto simp: sems_ok_def s' dest: remove_first_set)
    with assms(1) p' show ?thesis by (simp add: user_inv_def s')
  qed
qed

text \<open>
  The running thread saves a buffer \<open>X\<close> and gives up the \<open>RUNNING\<close> status: what
  \<open>sem_wait\<close> and \<open>signal_handler\<close> do before they call \<open>schedule\<close>.  The buffer has to
  fit the point at which the thread stands.
\<close>

lemma block_current:
  assumes t: "table_ok s" and u: "running_is_current s" and j: "joiners_ok s"
    and c: "contexts_ok s"
    and n: "num_threads s3 = num_threads s"
    and st: "st \<noteq> RUNNING"
    and xj: "\<And>t. in_range s t \<Longrightarrow> joined_by (tcb s t) = current_thread s \<Longrightarrow> ctx_joins X t"
    and xc: "\<And>t v. point_after (land X) = Some (AfterSetjmp t v) \<Longrightarrow> in_range s t"
    and T: "\<And>t. in_range s t \<Longrightarrow>
      tcb s3 t = (if t = current_thread s then (tcb s (current_thread s))\<lparr>status := st, ctx := X\<rparr>
                  else tcb s t)"
  shows "none_running s3 \<and> joiners_ok s3 \<and> contexts_ok s3"
proof (intro conjI)
  from n have r: "in_range s3 = in_range s" by (simp add: in_range_def fun_eq_iff)
  show "none_running s3"
    unfolding none_running_def
  proof (intro allI impI notI)
    fix i assume i: "in_range s3 i" and run: "status (tcb s3 i) = RUNNING"
    from i r have i': "in_range s i" by simp
    with run T st have "i \<noteq> current_thread s" "status (tcb s i) = RUNNING"
      by (auto split: if_splits)
    with i' u show False by (simp add: running_is_current_def)
  qed
  show "joiners_ok s3"
    unfolding joiners_ok_def
  proof (intro allI impI)
    fix t assume a: "in_range s3 t \<and> joined_by (tcb s3 t) \<noteq> - 1"
    let ?j = "joined_by (tcb s t)"
    from a r have t': "in_range s t" by simp
    with T have e: "joined_by (tcb s3 t) = ?j" by simp
    with a t' j have rj: "in_range s ?j" and cj: "ctx_joins (ctx (tcb s ?j)) t"
      unfolding joiners_ok_def by auto
    have "ctx_joins (ctx (tcb s3 ?j)) t"
    proof (cases "?j = current_thread s")
      case True
      with rj T have "ctx (tcb s3 ?j) = X" by simp
      with True t' xj show ?thesis by simp
    next
      case False
      with rj T have "tcb s3 ?j = tcb s ?j" by simp
      with cj show ?thesis by simp
    qed
    with rj e r
    show "in_range s3 (joined_by (tcb s3 t))
        \<and> ctx_joins (ctx (tcb s3 (joined_by (tcb s3 t)))) t"
      by simp
  qed
  show "contexts_ok s3"
    unfolding contexts_ok_def
  proof (intro allI impI)
    fix i t v
    assume a: "in_range s3 i \<and> point_after (land (ctx (tcb s3 i))) = Some (AfterSetjmp t v)"
    with r have i': "in_range s i" by simp
    have "in_range s t"
    proof (cases "i = current_thread s")
      case True
      with i' T have "ctx (tcb s3 i) = X" by simp
      with a xc show ?thesis by simp
    next
      case False
      with i' T have "tcb s3 i = tcb s i" by simp
      with a i' c show ?thesis unfolding contexts_ok_def by auto
    qed
    with r show "in_range s3 t" by simp
  qed
qed

lemma tcb_update2_current:
  assumes "table_ok s" "in_range s t"
  shows "tcb (tcb_update (current_thread s) f (tcb_update (current_thread s) g s)) t
    = (if t = current_thread s then f (g (tcb s (current_thread s))) else tcb s t)"
proof -
  from assms(1) have c: "in_range s (current_thread s)" by (simp add: table_ok_def)
  with assms show ?thesis
    by (simp add: tcb_update_in_range)
qed

lemma sem_wait_inv:
  assumes "user_inv s" "after (sem_wait s k rm) = Some (s', p')"
  shows "runtime_inv s' p'"
proof (cases "get_semaphore_data s k")
  case None
  with assms show ?thesis by (auto simp: sem_wait_def runtime_inv_user)
next
  case (Some d)
  from assms(1) have q: "sems_ok s" by (simp add: user_inv_def)
  note ok = sems_ok_lookup [OF q Some]
  then have ini: "sem_initialized d" by (simp add: sem_ok_def)
  show ?thesis
  proof (cases "0 < sem_value d")
    case True
    let ?d1 = "d\<lparr>sem_value := sem_value d - 1\<rparr>"
    from True Some ini assms(2) have s': "s' = put_semaphore_data s k ?d1"
      and p': "p' = UserCode"
      by (auto simp: sem_wait_def)
    from ok True have "sem_ok (num_threads s) ?d1" by (auto simp: sem_ok_def)
    with q have "sems_ok s'" unfolding s' by (rule sems_ok_put)
    with assms(1) p' show ?thesis by (simp add: runtime_inv_user user_inv_def s')
  next
    case v0: False
    show ?thesis
    proof (cases "queue_size d \<ge> queue_capacity d \<and> \<not> rm")
      case True
      with v0 Some ini assms show ?thesis by (auto simp: sem_wait_def runtime_inv_user)
    next
      case False
      let ?c = "current_thread s"
      let ?d1 = "if queue_size d \<ge> queue_capacity d
                 then d\<lparr>waiting_queue := waiting_queue d @ replicate (queue_capacity d) 0,
                        queue_capacity := queue_capacity d * 2\<rparr>
                 else d"
      let ?d2 = "?d1\<lparr>waiting_queue := (waiting_queue ?d1)[queue_size ?d1 := ?c],
                     queue_size := queue_size ?d1 + 1\<rparr>"
      let ?s1 = "put_semaphore_data s k ?d2"
      let ?s3 = "tcb_update ?c (\<lambda>t. t\<lparr>ctx := SavedInSemWait\<rparr>)
                   (tcb_update ?c (\<lambda>t. t\<lparr>status := BLOCKED\<rparr>) ?s1)"
      from False v0 Some ini assms(2)
      have nx: "after (schedule_and_unlock ?s3) = Some (s', p')"
        by (cases "queue_capacity d \<le> queue_size d") (simp_all add: sem_wait_def Let_def)
      have init: "initialized s"
      proof (rule ccontr)
        assume "\<not> initialized s"
        with assms(1) have "num_threads ?s3 = 0" by (simp add: user_inv_def)
        then have "after (schedule_and_unlock ?s3) = None" by (rule yield_uninit)
        with nx show False by simp
      qed
      with assms(1) have t: "table_ok s" and u: "running_is_current s"
        and j: "joiners_ok s" and jc: "joiner_not_current s" and c: "contexts_ok s"
        by (simp_all add: user_inv_def)
      from t have cr: "0 \<le> ?c" "?c < num_threads s" by (simp_all add: table_ok_def in_range_def)
      have d1: "queue_size ?d1 = queue_size d" "queue_size d < queue_capacity ?d1"
        "length (waiting_queue ?d1) = queue_capacity ?d1" "sem_value ?d1 = 0" "sem_initialized ?d1"
        "\<forall>j < queue_size d. waiting_queue ?d1 ! j = waiting_queue d ! j"
        using ok v0 by (auto simp: sem_ok_def nth_append)
      have "sem_ok (num_threads s) ?d2"
        unfolding sem_ok_def
      proof (intro conjI allI impI)
        fix i assume "i < queue_size ?d2"
        then have i: "i < queue_size d \<or> i = queue_size d" using d1(1) by auto
        have w: "waiting_queue ?d2 ! i = (if i = queue_size d then ?c else waiting_queue d ! i)"
          using d1 i by (auto simp: nth_list_update)
        from i ok have "i < queue_size d \<Longrightarrow>
            0 \<le> waiting_queue d ! i \<and> waiting_queue d ! i < num_threads s"
          unfolding sem_ok_def by blast
        with w i cr show "0 \<le> waiting_queue ?d2 ! i" "waiting_queue ?d2 ! i < num_threads s"
          by auto
      qed (use d1 ok in \<open>auto simp: sem_ok_def\<close>)
      with q have q1: "sems_ok ?s1" by (rule sems_ok_put)
      then have q3: "sems_ok ?s3" by simp
      have pre: "none_running ?s3 \<and> joiners_ok ?s3 \<and> contexts_ok ?s3"
      proof (rule block_current [OF t u j c, where st = BLOCKED and X = SavedInSemWait])
        fix t' assume "in_range s t'" "joined_by (tcb s t') = ?c"
        with jc show "ctx_joins SavedInSemWait t'" by (simp add: joiner_not_current_def)
      next
        fix t' assume "in_range s t'"
        then have "in_range ?s1 t'" by simp
        moreover from t have "table_ok ?s1" by simp
        ultimately have "tcb ?s3 t' = (if t' = current_thread ?s1
            then (tcb ?s1 (current_thread ?s1))\<lparr>status := BLOCKED, ctx := SavedInSemWait\<rparr>
            else tcb ?s1 t')"
          using tcb_update2_current [of ?s1 t'] by simp
        then show "tcb ?s3 t' = (if t' = ?c
            then (tcb s ?c)\<lparr>status := BLOCKED, ctx := SavedInSemWait\<rparr> else tcb s t')"
          by simp
      qed simp_all
      from t have "table_ok ?s3" by simp
      moreover from init have "initialized ?s3" by simp
      ultimately show ?thesis using pre q3 nx by (intro yield_inv [of ?s3]) simp_all
    qed
  qed
qed

lemma signal_handler_inv:
  assumes "runtime_inv s p" "initialized s" "after (signal_handler s p) = Some (s', p')"
  shows "runtime_inv s' p'"
proof -
  let ?c = "current_thread s"
  let ?st = "if status (tcb s ?c) = RUNNING then READY else status (tcb s ?c)"
  let ?s1 = "tcb_update ?c (\<lambda>t. t\<lparr>ctx := SavedInHandler p\<rparr>) s"
  let ?s2 = "if status (tcb ?s1 ?c) = RUNNING
             then tcb_update ?c (\<lambda>t. t\<lparr>status := READY\<rparr>) ?s1 else ?s1"
  from assms(3) have nx: "after (schedule_and_unlock ?s2) = Some (s', p')"
    by (simp add: signal_handler_def Let_def)
  from assms(1,2) have t: "table_ok s" and u: "running_is_current s"
    and j: "joiners_ok s" and po: "point_ok s p" and c: "contexts_ok s"
    and q: "sems_ok s"
    by (simp_all add: runtime_inv_def)
  from t have cr: "in_range s ?c" by (simp add: table_ok_def)
  have pre: "none_running ?s2 \<and> joiners_ok ?s2 \<and> contexts_ok ?s2"
  proof (rule block_current [OF t u j c, where st = ?st and X = "SavedInHandler p"])
    fix t' assume "in_range s t'" "joined_by (tcb s t') = ?c"
    with po show "ctx_joins (SavedInHandler p) t'" by (simp add: point_ok_def)
  next
    fix t' v assume "point_after (land (SavedInHandler p)) = Some (AfterSetjmp t' v)"
    with po show "in_range s t'" by (simp add: point_ok_def)
  next
    fix t' assume t': "in_range s t'"
    show "tcb ?s2 t' = (if t' = ?c then (tcb s ?c)\<lparr>status := ?st, ctx := SavedInHandler p\<rparr>
                        else tcb s t')"
      using t cr t' by (simp add: tcb_update_in_range)
  qed simp_all
  have "table_ok ?s2" using t by simp
  moreover have "initialized ?s2" using assms(2) by simp
  moreover have "sems_ok ?s2" using q by simp
  ultimately show ?thesis using pre nx by (intro yield_inv [of ?s2]) simp_all
qed

lemma status_running_update:
  "status (tcb (tcb_update i (\<lambda>t. t\<lparr>status := x\<rparr>) s) t) = RUNNING \<Longrightarrow> x \<noteq> RUNNING
    \<Longrightarrow> status (tcb s t) = RUNNING"
  by (simp add: tcb_tcb_update_gen split: if_splits)

lemma pthread_exit_inv:
  assumes "user_inv s" "after (pthread_exit s v) = Some (s', p')"
  shows "runtime_inv s' p'"
proof -
  let ?c = "current_thread s"
  let ?s1 = "tcb_update ?c (\<lambda>t. t\<lparr>return_value := v\<rparr>) s"
  let ?s2 = "tcb_update ?c (\<lambda>t. t\<lparr>status := EXITED\<rparr>) ?s1"
  let ?jb = "joined_by (tcb ?s2 ?c)"
  let ?s3 = "if ?jb \<noteq> - 1 then tcb_update ?jb (\<lambda>t. t\<lparr>status := READY\<rparr>) ?s2 else ?s2"
  have ne: "\<not> all_exited ?s3" and nx: "after (schedule_and_unlock ?s3) = Some (s', p')"
    using assms(2) by (auto simp: pthread_exit_def Let_def split: if_splits)
  have n3: "num_threads ?s3 = num_threads s" by simp
  have init: "initialized s"
  proof (rule ccontr)
    assume "\<not> initialized s"
    with assms(1) have "num_threads ?s3 = 0" by (simp add: user_inv_def)
    then have "all_exited ?s3" by (rule all_exited_uninit)
    with ne show False by simp
  qed
  with assms(1) have t: "table_ok s" and u: "running_is_current s"
    and j: "joiners_ok s" and jc: "joiner_not_current s" and c: "contexts_ok s"
    and q: "sems_ok s"
    by (simp_all add: user_inv_def)
  from t have cr: "in_range s ?c" by (simp add: table_ok_def)
  have nr: "none_running ?s3"
    unfolding none_running_def
  proof (intro allI impI notI)
    fix i assume i: "in_range ?s3 i" and run: "status (tcb ?s3 i) = RUNNING"
    from i have i': "in_range s i" by (simp split: if_splits)
    from run have "status (tcb ?s2 i) = RUNNING"
      by (auto dest: status_running_update split: if_splits)
    with t cr i' have "i \<noteq> ?c" "status (tcb s i) = RUNNING"
      by (auto simp: tcb_update_in_range split: if_splits)
    with i' u show False by (simp add: running_is_current_def)
  qed
  have j3: "joiners_ok ?s3"
    by (rule frame_joiners_ok [OF n3 _ _ j]) (simp_all add: tcb_tcb_update_gen)
  have c3: "contexts_ok ?s3"
    by (rule frame_contexts_ok [OF n3 _ c]) (simp_all add: tcb_tcb_update_gen)
  have "table_ok ?s3" using t by simp
  moreover have "initialized ?s3" using init by simp
  moreover have "sems_ok ?s3" using q by simp
  ultimately show ?thesis using nr j3 c3 nx by (intro yield_inv [of ?s3]) simp_all
qed

lemma pthread_join_inv:
  assumes "user_inv s" "after (pthread_join s h p) = Some (s', p')"
  shows "runtime_inv s' p'"
proof -
  let ?c = "current_thread s"
  let ?t0 = "find_thread s h 0"
  show ?thesis
  proof (cases "?t0 = - 1 \<or> has_been_joined (tcb s ?t0) \<or> ?t0 = ?c")
    case True
    with assms(2) have "s' = s \<and> p' = UserCode"
      by (auto simp: pthread_join_def Let_def split: if_splits)
    with assms(1) show ?thesis by (simp add: runtime_inv_user)
  next
    case False
    with find_thread_range [of 0 s h] have t0: "in_range s ?t0" by simp
    have init: "initialized s"
    proof (rule ccontr)
      assume "\<not> initialized s"
      with assms(1) have "num_threads s = 0" by (simp add: user_inv_def)
      with t0 show False unfolding in_range_def by arith
    qed
    with assms(1) have t: "table_ok s" and u: "running_is_current s"
      and j: "joiners_ok s" and jc: "joiner_not_current s" and c: "contexts_ok s"
      and q: "sems_ok s"
      by (simp_all add: user_inv_def)
    from t have cr: "in_range s ?c" by (simp add: table_ok_def)
    show ?thesis
    proof (cases "status (tcb s ?t0) = EXITED")
      case True
      with False assms(2) have s': "s' = reap ?t0 s" and p': "p' = UserCode"
        by (simp_all add: pthread_join_def Let_def)
      from t t0 u j jc c q init p' show ?thesis
        by (simp add: runtime_inv_user user_inv_def s' reap_running reap_joiners reap_contexts
            reap_joiner_not_current)
    next
      case ne: False
      let ?s1 = "tcb_update ?t0 (\<lambda>t. t\<lparr>joined_by := ?c\<rparr>) s"
      let ?s2 = "tcb_update ?c (\<lambda>t. t\<lparr>status := BLOCKED\<rparr>) ?s1"
      let ?s3 = "tcb_update ?c (\<lambda>t. t\<lparr>ctx := SavedInJoin ?t0 p\<rparr>) ?s2"
      from False ne assms(2) have nx: "after (schedule_and_unlock ?s3) = Some (s', p')"
        by (simp add: pthread_join_def Let_def)
      from False have tc: "?t0 \<noteq> ?c" by simp
      have T: "tcb ?s3 t' = (if t' = ?c then (tcb s ?c)\<lparr>status := BLOCKED, ctx := SavedInJoin ?t0 p\<rparr>
                  else if t' = ?t0 then (tcb s ?t0)\<lparr>joined_by := ?c\<rparr> else tcb s t')"
        if "in_range s t'" for t'
        using that t t0 cr tc by (simp add: tcb_update_in_range)
      have r3: "in_range ?s3 = in_range s" by (simp add: fun_eq_iff)
      have nr: "none_running ?s3"
        unfolding none_running_def
      proof (intro allI impI notI)
        fix i assume i: "in_range ?s3 i" and run: "status (tcb ?s3 i) = RUNNING"
        from i have i': "in_range s i" by simp
        with run T have "i \<noteq> ?c" "status (tcb s i) = RUNNING" by (auto split: if_splits)
        with i' u show False by (simp add: running_is_current_def)
      qed
      have c3: "contexts_ok ?s3"
        unfolding contexts_ok_def
      proof (intro allI impI)
        fix i t' v'
        assume a: "in_range ?s3 i
          \<and> point_after (land (ctx (tcb ?s3 i))) = Some (AfterSetjmp t' v')"
        then have i': "in_range s i" by simp
        show "in_range ?s3 t'"
        proof (cases "i = ?c")
          case True
          from cr T have "ctx (tcb ?s3 ?c) = SavedInJoin ?t0 p" by simp
          with a True have "t' = ?t0" by simp
          with t0 show ?thesis by simp
        next
          case False
          with a i' T have "point_after (land (ctx (tcb s i))) = Some (AfterSetjmp t' v')"
            by (auto split: if_splits)
          with i' c have "in_range s t'" unfolding contexts_ok_def by blast
          then show ?thesis by simp
        qed
      qed
      have j3: "joiners_ok ?s3"
        unfolding joiners_ok_def
      proof (intro allI impI)
        fix t' assume a: "in_range ?s3 t' \<and> joined_by (tcb ?s3 t') \<noteq> - 1"
        then have t': "in_range s t'" by simp
        show "in_range ?s3 (joined_by (tcb ?s3 t'))
          \<and> ctx_joins (ctx (tcb ?s3 (joined_by (tcb ?s3 t')))) t'"
        proof (cases "t' = ?t0")
          case True
          with t' T tc have "joined_by (tcb ?s3 t') = ?c" by simp
          moreover from cr T have "ctx (tcb ?s3 ?c) = SavedInJoin ?t0 p" by simp
          ultimately show ?thesis using cr True by simp
        next
          case nt: False
          let ?j = "joined_by (tcb s t')"
          from nt t' T have e: "joined_by (tcb ?s3 t') = ?j" by simp
          with a t' j have rj: "in_range s ?j" and cj: "ctx_joins (ctx (tcb s ?j)) t'"
            unfolding joiners_ok_def by auto
          from t' jc have "?j \<noteq> ?c" by (simp add: joiner_not_current_def)
          with rj T have "ctx (tcb ?s3 ?j) = ctx (tcb s ?j)" by simp
          with rj cj e show ?thesis by simp
        qed
      qed
      have "table_ok ?s3" using t by simp
      moreover have "initialized ?s3" using init by simp
      moreover have "sems_ok ?s3" using q by simp
      ultimately show ?thesis using nr j3 c3 nx by (intro yield_inv [of ?s3]) simp_all
    qed
  qed
qed

subsection \<open>Creation and initialisation\<close>

lemma init_tcbs_done: "\<not> i < MAX_THREADS \<Longrightarrow> init_tcbs s i = s"
  by (subst init_tcbs.simps) simp

lemma init_tcbs_step:
  "i < MAX_THREADS \<Longrightarrow> init_tcbs s i =
     init_tcbs (tcb_update i (\<lambda>t. t\<lparr>thread_id := i, stack := 0, status := EXITED,
        start_routine := 0, arg := 0, return_value := 0, joined_by := - 1,
        has_been_joined := (i > 0)\<rparr>) s) (i + 1)"
  by (subst init_tcbs.simps) simp

lemma init_tcbs_frame:
  "0 \<le> i \<Longrightarrow>
     length (tcb_array (init_tcbs s i)) = length (tcb_array s)
     \<and> num_threads (init_tcbs s i) = num_threads s
     \<and> current_thread (init_tcbs s i) = current_thread s
     \<and> initialized (init_tcbs s i) = initialized s
     \<and> semaphores (init_tcbs s i) = semaphores s
     \<and> (\<forall>k. 0 \<le> k \<and> k < i \<longrightarrow> tcb (init_tcbs s i) k = tcb s k)"
proof (induction s i rule: init_tcbs.induct)
  case (1 s i)
  show ?case
  proof (cases "i < MAX_THREADS")
    case False
    then show ?thesis by (simp add: init_tcbs_done)
  next
    case True
    let ?s1 = "tcb_update i (\<lambda>t. t\<lparr>thread_id := i, stack := 0, status := EXITED,
        start_routine := 0, arg := 0, return_value := 0, joined_by := - 1,
        has_been_joined := (i > 0)\<rparr>) s"
    from 1 True have ih: "length (tcb_array (init_tcbs ?s1 (i + 1))) = length (tcb_array ?s1)
     \<and> num_threads (init_tcbs ?s1 (i + 1)) = num_threads ?s1
     \<and> current_thread (init_tcbs ?s1 (i + 1)) = current_thread ?s1
     \<and> initialized (init_tcbs ?s1 (i + 1)) = initialized ?s1
     \<and> semaphores (init_tcbs ?s1 (i + 1)) = semaphores ?s1
     \<and> (\<forall>k. 0 \<le> k \<and> k < i + 1 \<longrightarrow> tcb (init_tcbs ?s1 (i + 1)) k = tcb ?s1 k)"
      by simp
    have st: "init_tcbs s i = init_tcbs ?s1 (i + 1)"
      by (rule init_tcbs_step [OF True])
    have old: "tcb ?s1 k = tcb s k" if "0 \<le> k" "k < i" for k
      using that 1(2) by (simp add: tcb_tcb_update_other)
    have X: "\<forall>k. 0 \<le> k \<and> k < i \<longrightarrow> tcb (init_tcbs ?s1 (i + 1)) k = tcb s k"
    proof (intro allI impI)
      fix k assume k: "0 \<le> k \<and> k < i"
      then have "0 \<le> k \<and> k < i + 1" by simp
      with ih have "tcb (init_tcbs ?s1 (i + 1)) k = tcb ?s1 k" by blast
      with k old show "tcb (init_tcbs ?s1 (i + 1)) k = tcb s k" by simp
    qed
    from ih have g: "length (tcb_array (init_tcbs ?s1 (i + 1))) = length (tcb_array s)"
      "num_threads (init_tcbs ?s1 (i + 1)) = num_threads s"
      "current_thread (init_tcbs ?s1 (i + 1)) = current_thread s"
      "initialized (init_tcbs ?s1 (i + 1)) = initialized s"
      "semaphores (init_tcbs ?s1 (i + 1)) = semaphores s"
      by simp_all
    show ?thesis unfolding st using g X by blast
  qed
qed

lemma init_tcbs_slot0:
  assumes "0 < length (tcb_array s)"
  shows "joined_by (tcb (init_tcbs s 0) 0) = - 1" "ctx (tcb (init_tcbs s 0) 0) = ctx (tcb s 0)"
proof -
  let ?s1 = "tcb_update 0 (\<lambda>t. t\<lparr>thread_id := 0, stack := 0, status := EXITED,
        start_routine := 0, arg := 0, return_value := 0, joined_by := - 1,
        has_been_joined := ((0::int) > 0)\<rparr>) s"
  have "init_tcbs s 0 = init_tcbs ?s1 (0 + 1)"
    by (rule init_tcbs_step) (simp add: MAX_THREADS_def)
  moreover have "tcb (init_tcbs ?s1 (0 + 1)) 0 = tcb ?s1 0"
    using init_tcbs_frame [of "0 + 1" ?s1] by simp
  ultimately have "tcb (init_tcbs s 0) 0 = tcb ?s1 0" by simp
  with assms show "joined_by (tcb (init_tcbs s 0) 0) = - 1"
    "ctx (tcb (init_tcbs s 0) 0) = ctx (tcb s 0)"
    by (simp_all add: tcb_tcb_update_gen)
qed

lemma sem_ok_mono: "sem_ok n d \<Longrightarrow> n \<le> m \<Longrightarrow> sem_ok m d"
  unfolding sem_ok_def by (meson less_le_trans)

lemma sems_ok_grow:
  "sems_ok s \<Longrightarrow> semaphores s' = semaphores s \<Longrightarrow> num_threads s \<le> num_threads s'
    \<Longrightarrow> sems_ok s'"
  unfolding sems_ok_def by (auto intro: sem_ok_mono)

lemma init_threading_inv:
  assumes "user_inv s" "\<not> initialized s"
  shows "user_inv (init_threading s)" "initialized (init_threading s)"
proof -
  let ?s1 = "s\<lparr>initialized := True\<rparr>"
  let ?s2 = "init_tcbs ?s1 0"
  let ?s3 = "tcb_update 0 (\<lambda>t. t\<lparr>status := RUNNING, has_been_joined := False\<rparr>) ?s2"
  let ?s' = "?s3\<lparr>num_threads := 1, current_thread := 0\<rparr>"
  from assms have i: "init_threading s = ?s'" by (simp add: init_threading_def Let_def)
  from assms have b: "tcb_array s = tcb_array boot" and q: "sems_ok s" and n0: "num_threads s = 0"
    by (simp_all add: user_inv_def)
  from b have len: "length (tcb_array ?s1) = 150" by (simp add: boot_def)
  from b have z: "ctx (tcb ?s1 0) = Zeroed" by (simp add: tcb_def boot_def zero_tcb_def)
  note fr = init_tcbs_frame [of 0 ?s1]
  from len have s0: "joined_by (tcb ?s2 0) = - 1" "ctx (tcb ?s2 0) = Zeroed"
    using init_tcbs_slot0 [of ?s1] z by simp_all
  from fr len have len2: "length (tcb_array ?s2) = 150" by simp
  have r: "in_range x t \<longleftrightarrow> t = 0" if "num_threads x = 1" for x t
    using that by (auto simp: in_range_def)
  from s0 len2 have f0: "joined_by (tcb ?s' 0) = - 1" "ctx (tcb ?s' 0) = Zeroed"
    by (simp_all add: tcb_tcb_update_gen)
  have "table_ok ?s'" using len2 by (simp add: table_ok_def in_range_def MAX_THREADS_def)
  moreover have "running_is_current ?s'" by (simp add: running_is_current_def r)
  moreover have "joiners_ok ?s'" using f0 by (simp add: joiners_ok_def r)
  moreover have "joiner_not_current ?s'" using f0 by (simp add: joiner_not_current_def r)
  moreover have "contexts_ok ?s'" using f0 by (simp add: contexts_ok_def r)
  moreover have "sems_ok ?s'"
  proof (rule sems_ok_grow [OF q])
    from fr show "semaphores ?s' = semaphores s" by simp
    from n0 show "num_threads s \<le> num_threads ?s'" by simp
  qed
  moreover from fr have ini: "initialized ?s'" by simp
  ultimately have "user_inv ?s'" unfolding user_inv_def by simp
  with ini show "user_inv (init_threading s)" "initialized (init_threading s)"
    unfolding i by blast+
qed

lemma frame_running:
  assumes "num_threads s' = num_threads s" "current_thread s' = current_thread s"
    and "\<And>t. in_range s t \<Longrightarrow> status (tcb s' t) = status (tcb s t)"
    and "running_is_current s"
  shows "running_is_current s'"
  unfolding running_is_current_def
proof (intro allI impI)
  fix i assume a: "in_range s' i \<and> status (tcb s' i) = RUNNING"
  with assms(1) have i: "in_range s i" by (simp add: in_range_def)
  with a assms(3) have "status (tcb s i) = RUNNING" by simp
  with i assms(4) have "i = current_thread s" by (simp add: running_is_current_def)
  with assms(2) show "i = current_thread s'" by simp
qed

lemma frame_joiner_not_current:
  assumes "num_threads s' = num_threads s" "current_thread s' = current_thread s"
    and "\<And>t. in_range s t \<Longrightarrow> joined_by (tcb s' t) = joined_by (tcb s t)"
    and "joiner_not_current s"
  shows "joiner_not_current s'"
  unfolding joiner_not_current_def
proof (intro allI impI)
  fix t assume a: "in_range s' t"
  with assms(1) have t: "in_range s t" by (simp add: in_range_def)
  with assms(4) have "joined_by (tcb s t) \<noteq> current_thread s"
    by (simp add: joiner_not_current_def)
  with t assms(2,3) show "joined_by (tcb s' t) \<noteq> current_thread s'" by simp
qed

lemma pthread_create_locked_inv:
  assumes iv: "user_inv s" and init: "initialized s"
    and nx: "after (pthread_create_locked s f a m) = Some (s', p')"
  shows "user_inv s' \<and> p' = UserCode"
proof -
  let ?n = "num_threads s"
  let ?c = "current_thread s"
  from iv init have t: "table_ok s" and u: "running_is_current s"
    and j: "joiners_ok s" and jc: "joiner_not_current s" and c: "contexts_ok s"
    and q: "sems_ok s"
    unfolding user_inv_def by simp_all
  show ?thesis
  proof (cases "?n \<ge> MAX_THREADS")
    case True
    with nx init have "s' = s \<and> p' = UserCode" by (simp add: pthread_create_locked_def Let_def)
    with iv show ?thesis by simp
  next
    case False
    let ?F = "\<lambda>t. t\<lparr>thread_id := ?n, status := READY, start_routine := f, arg := a,
        return_value := 0, joined_by := - 1, has_been_joined := False, stack := m\<rparr>"
    let ?s2 = "tcb_update ?n ?F (s\<lparr>num_threads := ?n + 1\<rparr>)"
    have old: "tcb ?s2 t' = tcb s t'" "tcb (tcb_update ?n g ?s2) t' = tcb s t'"
      if "in_range s t'" for t' g
    proof -
      from that have "nat t' \<noteq> nat ?n" unfolding in_range_def by arith
      then show "tcb ?s2 t' = tcb s t'" "tcb (tcb_update ?n g ?s2) t' = tcb s t'"
        by (simp_all add: tcb_tcb_update_gen)
    qed
    show ?thesis
    proof (cases "m = 0")
      case True
      with False nx init have s': "s' = ?s2\<lparr>num_threads := ?n\<rparr>" and p': "p' = UserCode"
        by (simp_all add: pthread_create_locked_def Let_def)
      have r: "in_range s' = in_range s" by (simp add: s' in_range_def fun_eq_iff)
      have T: "tcb s' t' = tcb s t'" if "in_range s t'" for t'
        using old(1) [OF that] by (simp add: s')
      have "table_ok s'" using t by (simp add: s' table_ok_def in_range_def)
      moreover have "running_is_current s'"
        by (rule frame_running [OF _ _ _ u]) (simp_all add: T, simp_all add: s')
      moreover have "joiners_ok s'"
        by (rule frame_joiners_ok [OF _ _ _ j]) (simp_all add: T, simp_all add: s')
      moreover have "contexts_ok s'"
        by (rule frame_contexts_ok [OF _ _ c]) (simp_all add: T, simp_all add: s')
      moreover have "joiner_not_current s'"
        by (rule frame_joiner_not_current [OF _ _ _ jc]) (simp_all add: T, simp_all add: s')
      moreover have "sems_ok s'" using q by (simp add: s' sems_ok_def)
      moreover have "initialized s'" using init by (simp add: s')
      ultimately show ?thesis using p' by (simp add: user_inv_def)
    next
      case nz: False
      with False nx init have s': "s' = tcb_update ?n (\<lambda>t. t\<lparr>ctx := Fabricated\<rparr>) ?s2"
        and p': "p' = UserCode"
        by (simp_all add: pthread_create_locked_def Let_def)
      from t False have nlen: "nat ?n < length (tcb_array s)" "0 \<le> ?n"
        unfolding table_ok_def MAX_THREADS_def by linarith+
      have r: "in_range s' t' \<longleftrightarrow> in_range s t' \<or> t' = ?n" for t'
        using nlen by (auto simp: s' in_range_def)
      have T: "tcb s' t' = tcb s t'" if "in_range s t'" for t'
        using old(2) [OF that] by (simp add: s')
      have N: "joined_by (tcb s' ?n) = - 1" "status (tcb s' ?n) = READY"
        "ctx (tcb s' ?n) = Fabricated"
        using nlen by (simp_all add: s' tcb_tcb_update_gen)
      have nn: "\<not> in_range s ?n" by (simp add: in_range_def)
      have "table_ok s'"
        using t False by (simp add: s' table_ok_def in_range_def)
      moreover have "running_is_current s'"
        unfolding running_is_current_def
      proof (intro allI impI)
        fix i assume a: "in_range s' i \<and> status (tcb s' i) = RUNNING"
        with r N have i: "in_range s i" by auto
        with a T u have "i = ?c" by (simp add: running_is_current_def)
        then show "i = current_thread s'" by (simp add: s')
      qed
      moreover have "joiners_ok s'"
        unfolding joiners_ok_def
      proof (intro allI impI)
        fix t' assume a: "in_range s' t' \<and> joined_by (tcb s' t') \<noteq> - 1"
        let ?j = "joined_by (tcb s t')"
        from a r N have t': "in_range s t'" by auto
        with a T j have rj: "in_range s ?j" and cj: "ctx_joins (ctx (tcb s ?j)) t'"
          unfolding joiners_ok_def by auto
        with t' T r
        show "in_range s' (joined_by (tcb s' t'))
          \<and> ctx_joins (ctx (tcb s' (joined_by (tcb s' t')))) t'"
          by simp
      qed
      moreover have "contexts_ok s'"
        unfolding contexts_ok_def
      proof (intro allI impI)
        fix i t' v'
        assume a: "in_range s' i
          \<and> point_after (land (ctx (tcb s' i))) = Some (AfterSetjmp t' v')"
        with r N have i: "in_range s i" by auto
        with a T c have "in_range s t'" unfolding contexts_ok_def by auto
        with r show "in_range s' t'" by simp
      qed
      moreover have "joiner_not_current s'"
        unfolding joiner_not_current_def
      proof (intro allI impI)
        fix t' assume a: "in_range s' t'"
        have cs: "current_thread s' = ?c" by (simp add: s')
        from t have c0: "0 \<le> ?c" by (simp add: table_ok_def in_range_def)
        show "joined_by (tcb s' t') \<noteq> current_thread s'"
        proof (cases "t' = ?n")
          case True
          with N c0 cs show ?thesis by simp
        next
          case False
          with a r have "in_range s t'" by simp
          with T jc cs show ?thesis by (simp add: joiner_not_current_def)
        qed
      qed
      moreover have "sems_ok s'"
        using q by (rule sems_ok_grow) (simp_all add: s')
      moreover have "initialized s'" using init by (simp add: s')
      ultimately show ?thesis using p' by (simp add: user_inv_def)
    qed
  qed
qed

lemma pthread_create_initialized:
  "initialized s \<Longrightarrow> pthread_create s f a m = pthread_create_locked s f a m"
  by (simp add: pthread_create_def)

subsection \<open>Every reachable configuration satisfies the invariant\<close>

lemma runtime_inv_boot: "runtime_inv boot UserCode"
  by (simp add: runtime_inv_def sems_ok_def boot_def)

lemma runtime_inv_initialized:
  "runtime_inv s p \<Longrightarrow> p \<noteq> UserCode \<Longrightarrow> initialized s"
  by (auto simp: runtime_inv_def split: if_splits)

lemma proceed_inv:
  assumes "runtime_inv s p" "proceed s p = Some (s', p')"
  shows "runtime_inv s' p'"
proof (cases p)
  case UserCode
  with assms(2) show ?thesis by simp
next
  case (AfterInit f a m)
  with assms(1) have "initialized s" "user_inv s" by (simp_all add: runtime_inv_after_init)
  moreover from assms(2) AfterInit have "after (pthread_create_locked s f a m) = Some (s', p')"
    by simp
  ultimately have "user_inv s' \<and> p' = UserCode" by (intro pthread_create_locked_inv [of s f a m])
  then show ?thesis by (simp add: runtime_inv_user)
next
  case BeforeLongjmp
  with assms(1) have i: "initialized s" by (auto dest: runtime_inv_initialized)
  from assms(2) BeforeLongjmp have "s' = s" "point_after (longjmp s) = Some p'" by auto
  with assms(1) BeforeLongjmp i show ?thesis by (auto intro: longjmp_inv)
next
  case (AfterSetjmp t v)
  with assms(1) have i: "initialized s" by (auto dest: runtime_inv_initialized)
  from assms(2) AfterSetjmp have "s' = reap t s" "p' = UserCode"
    by (simp_all add: pthread_join_resumed_def)
  with assms(1) AfterSetjmp i show ?thesis by (simp add: pthread_join_resumed_inv)
qed

lemma runtime_inv_step:
  assumes "runtime_inv s p" "exec c s p = Some (s', p')"
  shows "runtime_inv s' p'"
proof (cases "c = Tick \<or> c = Proceed")
  case True
  with assms show ?thesis
    by (auto intro: proceed_inv signal_handler_inv split: if_splits)
next
  case False
  with assms(2) have p: "p = UserCode" by (cases c) (auto split: if_splits)
  with assms(1) have u: "user_inv s" by (simp add: runtime_inv_user)
  show ?thesis
  proof (cases c)
    case (Create f a m)
    show ?thesis
    proof (cases "initialized s")
      case True
      with assms(2) Create p have "after (pthread_create_locked s f a m) = Some (s', p')"
        by (simp add: pthread_create_initialized)
      with u True have "user_inv s' \<and> p' = UserCode" by (rule pthread_create_locked_inv)
      then show ?thesis by (simp add: runtime_inv_user)
    next
      case False
      with assms(2) Create p have "s' = init_threading s" "p' = AfterInit f a m" by simp_all
      with init_threading_inv [OF u False] show ?thesis by (simp add: runtime_inv_after_init)
    qed
  next
    case (Exit v)
    with assms(2) p u show ?thesis by (auto intro: pthread_exit_inv)
  next
    case (Join h v)
    with assms(2) p u show ?thesis by (auto intro: pthread_join_inv)
  next
    case (SemInit k sh v dm qm)
    with assms(2) p have "after (sem_init s k sh v dm qm) = Some (s', p')" by simp
    with u have "user_inv s' \<and> p' = UserCode" by (rule sem_init_inv)
    then show ?thesis by (simp add: runtime_inv_user)
  next
    case (SemDestroy k)
    with assms(2) p have "after (sem_destroy s k) = Some (s', p')" by simp
    with u have "user_inv s' \<and> p' = UserCode" by (rule sem_destroy_inv)
    then show ?thesis by (simp add: runtime_inv_user)
  next
    case (SemWait k rm)
    with assms(2) p u show ?thesis by (auto intro: sem_wait_inv)
  next
    case (SemPost k)
    with assms(2) p have "after (sem_post s k) = Some (s', p')" by simp
    with u have "user_inv s' \<and> p' = UserCode" by (rule sem_post_inv)
    then show ?thesis by (simp add: runtime_inv_user)
  next
    case Tick
    with False show ?thesis by simp
  next
    case Proceed
    with False show ?thesis by simp
  qed
qed

lemma reachable_inv: "reachable s p \<Longrightarrow> runtime_inv s p"
  by (induction rule: reachable.induct) (auto intro: runtime_inv_boot runtime_inv_step)

lemma run_reachable:
  "reachable s p \<Longrightarrow> run cs (s, p) = Some (s', p') \<Longrightarrow> reachable s' p'"
proof (induction cs arbitrary: s p)
  case Nil
  then show ?case by simp
next
  case (Cons c cs)
  then show ?case
    by (auto split: option.splits intro: reach_step)
qed

section \<open>Evaluating runs\<close>

text \<open>
  The two comparisons with \<open>SEM_VALUE_MAX\<close>, stated on integers so that evaluating a
  concrete call does not count up to 65536.
\<close>

lemma sem_init_code [code]:
  "sem_init s sem pshared v data_mem queue_mem =
     (if pshared \<noteq> 0 \<or> int v \<ge> 65536 then Ret (- 1) NoWrite s
      else if \<not> data_mem then Ret (- 1) NoWrite s
      else
        (let data = \<lparr>sem_initialized = True, sem_value = v, waiting_queue = replicate 16 0,
                      queue_size = 0, queue_capacity = 16\<rparr>
         in if \<not> queue_mem then Ret (- 1) NoWrite s
            else
              (case add_semaphore_mapping s sem data of
                 (False, s') \<Rightarrow> Ret (- 1) NoWrite s'
               | (True, s') \<Rightarrow> Ret 0 NoWrite s')))"
  by (simp add: sem_init_def SEM_VALUE_MAX_def)

lemma sem_post_code [code]:
  "sem_post s sem =
     (case get_semaphore_data s sem of
        None \<Rightarrow> Ret (- 1) NoWrite s
      | Some data \<Rightarrow>
          if \<not> sem_initialized data then Ret (- 1) NoWrite s
          else if queue_size data > 0 then
            (let woken_thread = waiting_queue data ! 0;
                 data1 = data\<lparr>waiting_queue :=
                                 shift_queue (waiting_queue data) (queue_size data) 0,
                               queue_size := queue_size data - 1\<rparr>;
                 s1 = put_semaphore_data s sem data1;
                 s2 = tcb_update woken_thread (\<lambda>t. t\<lparr>status := READY\<rparr>) s1
             in Ret 0 NoWrite s2)
          else if int (sem_value data) < 65535 then
            Ret 0 NoWrite (put_semaphore_data s sem (data\<lparr>sem_value := sem_value data + 1\<rparr>))
          else Ret (- 1) NoWrite s)"
  by (simp add: sem_post_def SEM_VALUE_MAX_def split: option.splits)

lemma run_start_reachable: "run cs start = Some (s, p) \<Longrightarrow> reachable s p"
  unfolding start_def by (rule run_reachable [OF reach_boot])

lemma filter_single:
  assumes "distinct xs" "\<And>x. x \<in> set xs \<Longrightarrow> P x \<Longrightarrow> x = c"
  shows "filter P xs = (if c \<in> set xs \<and> P c then [c] else [])"
  using assms
proof (induction xs)
  case Nil
  then show ?case by simp
next
  case (Cons a xs)
  then have ih: "filter P xs = (if c \<in> set xs \<and> P c then [c] else [])" by simp
  show ?case
  proof (cases "P a")
    case True
    with Cons.prems(2) have "a = c" by simp
    with Cons.prems(1) True ih show ?thesis by simp
  next
    case False
    with ih show ?thesis by auto
  qed
qed

section \<open>Which record is running\<close>

text \<open>
  Claim C2, as the code has it.  In every configuration the runtime can reach after
  initialisation, no record other than the current one is \<open>RUNNING\<close>: the list of
  \<open>RUNNING\<close> slots is \<open>[current_thread]\<close> when the current record is \<open>RUNNING\<close> and
  empty otherwise.  (It is empty when \<open>schedule\<close> found no \<open>READY\<close> slot and went
  back to a caller that had just marked itself \<open>BLOCKED\<close> or \<open>EXITED\<close>.)
\<close>

theorem running_slot_is_current:
  assumes "reachable s p" "initialized s"
  shows "running_slots s
    = (if status (tcb s (current_thread s)) = RUNNING then [current_thread s] else [])"
proof -
  from assms have t: "table_ok s" and u: "running_is_current s"
    using reachable_inv [of s p] by (simp_all add: runtime_inv_def)
  let ?xs = "map int [0..<nat (num_threads s)]"
  have m: "x \<in> set ?xs \<longleftrightarrow> in_range s x" for x
    by (auto simp: in_range_def image_iff intro: bexI [of _ "nat x"])
  have "distinct ?xs" by (simp add: distinct_map)
  moreover have "x = current_thread s" if "x \<in> set ?xs" "status (tcb s x) = RUNNING" for x
    using that u m by (simp add: running_is_current_def)
  ultimately have "running_slots s = (if current_thread s \<in> set ?xs
      \<and> status (tcb s (current_thread s)) = RUNNING then [current_thread s] else [])"
    unfolding running_slots_def by (rule filter_single)
  moreover from t have "current_thread s \<in> set ?xs" unfolding m by (simp add: table_ok_def)
  ultimately show ?thesis by simp
qed

text \<open>After the first \<open>pthread_create\<close> the main thread is the one running record.\<close>

theorem running_slot_is_current_witness:
  "(let s = state_after [Create 7 0 1, Proceed] in
      reachable s UserCode \<and> initialized s \<and> running_slots s = [current_thread s])"
proof -
  have e: "(let s = state_after [Create 7 0 1, Proceed] in
      run [Create 7 0 1, Proceed] start = Some (s, UserCode) \<and> initialized s
      \<and> status (tcb s (current_thread s)) = RUNNING)"
    by code_simp
  define s where "s = state_after [Create 7 0 1, Proceed]"
  from e have r: "run [Create 7 0 1, Proceed] start = Some (s, UserCode)" and i: "initialized s"
    and c: "status (tcb s (current_thread s)) = RUNNING"
    unfolding s_def Let_def by blast+
  from r have re: "reachable s UserCode" by (rule run_start_reachable)
  from running_slot_is_current [OF re i] c have "running_slots s = [current_thread s]" by simp
  with re i show ?thesis unfolding s_def Let_def by blast
qed

text \<open>
  Claim C2 as stated fails.  The main thread creates thread 1 and joins it; thread 1
  starts and joins the main thread.  Both are now \<open>BLOCKED\<close>, \<open>schedule\<close> finds no
  \<open>READY\<close> slot and keeps thread 1 current without making it \<open>RUNNING\<close>; the
  \<open>longjmp\<close> lands behind thread 1's own \<open>setjmp\<close>, and the rest of its join reaps slot
  0.  Thread 1 is back in user code and no record is \<open>RUNNING\<close>.
\<close>

theorem no_running_counterexample:
  "(let s = state_after [Create 7 0 1, Proceed, Join 1 0, Proceed, Join 0 0, Proceed, Proceed] in
      reachable s UserCode \<and> initialized s \<and> running_slots s = []
      \<and> running_slots s \<noteq> [current_thread s])"
proof -
  have e: "(let s = state_after
                [Create 7 0 1, Proceed, Join 1 0, Proceed, Join 0 0, Proceed, Proceed] in
      run [Create 7 0 1, Proceed, Join 1 0, Proceed, Join 0 0, Proceed, Proceed] start
        = Some (s, UserCode)
      \<and> initialized s \<and> running_slots s = [])"
    by code_simp
  define s where
    "s = state_after [Create 7 0 1, Proceed, Join 1 0, Proceed, Join 0 0, Proceed, Proceed]"
  from e have r: "run [Create 7 0 1, Proceed, Join 1 0, Proceed, Join 0 0, Proceed, Proceed] start
      = Some (s, UserCode)"
    and i: "initialized s" and n: "running_slots s = []"
    unfolding s_def Let_def by blast+
  from r have "reachable s UserCode" by (rule run_start_reachable)
  with i n show ?thesis unfolding s_def Let_def by simp
qed

section \<open>Waiting queue and value of a semaphore\<close>

lemma lookup_store_same:
  "lookup_sem dir k = Some d \<Longrightarrow> lookup_sem (store_sem dir k d') k = Some d'"
  by (induction dir k rule: lookup_sem.induct) (auto split: if_splits)

lemma get_put_semaphore_data:
  "get_semaphore_data s k = Some d
    \<Longrightarrow> get_semaphore_data (put_semaphore_data s k d') k = Some d'"
  by (simp add: get_semaphore_data_def put_semaphore_data_def lookup_store_same)

lemma get_semaphore_data_tcb_update [simp]:
  "get_semaphore_data (tcb_update i f s) k = get_semaphore_data s k"
  by (simp add: get_semaphore_data_def)

text \<open>
  Claim C4.  In every reachable configuration, a semaphore record of the directory whose
  waiting queue is not empty has value 0.  In particular, \<open>sem_wait\<close> on an initialised
  semaphore whose value is positive decrements the value and returns 0 without touching
  the queue, so it enqueues the caller only when the value is 0; and \<open>sem_post\<close> on an
  initialised semaphore whose queue is not empty removes the head of the queue, makes
  that thread \<open>READY\<close> and leaves the value as it was.
\<close>

theorem waiting_queue_value_zero:
  "(reachable s p \<and> (k, d) \<in> set (semaphores s) \<and> 0 < queue_size d \<longrightarrow> sem_value d = 0)
   \<and> (get_semaphore_data s sem = Some e \<and> sem_initialized e \<and> 0 < sem_value e \<longrightarrow>
        sem_wait s sem rm
          = Ret 0 NoWrite (put_semaphore_data s sem (e\<lparr>sem_value := sem_value e - 1\<rparr>)))
   \<and> (get_semaphore_data s sem = Some e \<and> sem_initialized e \<and> 0 < queue_size e \<longrightarrow>
        (\<exists>s' e'. sem_post s sem = Ret 0 NoWrite s'
           \<and> s' = tcb_update (waiting_queue e ! 0) (\<lambda>t. t\<lparr>status := READY\<rparr>)
                  (put_semaphore_data s sem e')
           \<and> get_semaphore_data s' sem = Some e'
           \<and> sem_value e' = sem_value e \<and> queue_size e' = queue_size e - 1))"
proof (intro conjI impI)
  assume a: "reachable s p \<and> (k, d) \<in> set (semaphores s) \<and> 0 < queue_size d"
  then have "sems_ok s" using reachable_inv [of s p] by (simp add: runtime_inv_def)
  with a have "sem_ok (num_threads s) d" by (auto simp: sems_ok_def)
  with a show "sem_value d = 0" by (simp add: sem_ok_def)
next
  assume "get_semaphore_data s sem = Some e \<and> sem_initialized e \<and> 0 < sem_value e"
  then show "sem_wait s sem rm
      = Ret 0 NoWrite (put_semaphore_data s sem (e\<lparr>sem_value := sem_value e - 1\<rparr>))"
    by (simp add: sem_wait_def)
next
  assume a: "get_semaphore_data s sem = Some e \<and> sem_initialized e \<and> 0 < queue_size e"
  let ?e' = "e\<lparr>waiting_queue := shift_queue (waiting_queue e) (queue_size e) 0,
                queue_size := queue_size e - 1\<rparr>"
  let ?s' = "tcb_update (waiting_queue e ! 0) (\<lambda>t. t\<lparr>status := READY\<rparr>)
               (put_semaphore_data s sem ?e')"
  from a have "sem_post s sem = Ret 0 NoWrite ?s'" by (simp add: sem_post_def Let_def)
  moreover from a have "get_semaphore_data ?s' sem = Some ?e'"
    by (simp add: get_put_semaphore_data)
  ultimately show "\<exists>s' e'. sem_post s sem = Ret 0 NoWrite s'
           \<and> s' = tcb_update (waiting_queue e ! 0) (\<lambda>t. t\<lparr>status := READY\<rparr>)
                  (put_semaphore_data s sem e')
           \<and> get_semaphore_data s' sem = Some e'
           \<and> sem_value e' = sem_value e \<and> queue_size e' = queue_size e - 1"
    by (intro exI [of _ ?s'] exI [of _ ?e']) simp
qed

text \<open>
  A semaphore is initialised with value 0, a thread is created, the main thread waits
  and thread 1 starts: the main thread is queued and the value is 0, and a post wakes it
  without changing the value.  On a semaphore initialised with value 1, \<open>sem_wait\<close>
  decrements and returns.
\<close>

theorem waiting_queue_value_zero_witness:
  "(let s = state_after [SemInit 5 0 0 True True, Create 7 0 1, Proceed, SemWait 5 True, Proceed];
        d = the (get_semaphore_data s 5) in
      reachable s UserCode \<and> (5, d) \<in> set (semaphores s) \<and> 0 < queue_size d \<and> sem_value d = 0
      \<and> get_semaphore_data s 5 = Some d \<and> sem_initialized d
      \<and> (\<exists>s' d'. sem_post s 5 = Ret 0 NoWrite s'
            \<and> s' = tcb_update (waiting_queue d ! 0) (\<lambda>t. t\<lparr>status := READY\<rparr>)
                   (put_semaphore_data s 5 d')
            \<and> get_semaphore_data s' 5 = Some d'
            \<and> sem_value d' = 0 \<and> queue_size d' = queue_size d - 1))
   \<and> (let s = state_after [SemInit 5 0 1 True True];
          e = the (get_semaphore_data s 5) in
      get_semaphore_data s 5 = Some e \<and> sem_initialized e \<and> 0 < sem_value e
      \<and> sem_wait s 5 True
          = Ret 0 NoWrite (put_semaphore_data s 5 (e\<lparr>sem_value := sem_value e - 1\<rparr>)))"
proof -
  have ev: "(let s = state_after
                 [SemInit 5 0 0 True True, Create 7 0 1, Proceed, SemWait 5 True, Proceed];
        d = the (get_semaphore_data s 5) in
      run [SemInit 5 0 0 True True, Create 7 0 1, Proceed, SemWait 5 True, Proceed] start
        = Some (s, UserCode)
      \<and> semaphores s = [(5, d)] \<and> 0 < queue_size d
      \<and> get_semaphore_data s 5 = Some d \<and> sem_initialized d)
    \<and> (let s = state_after [SemInit 5 0 1 True True];
          e = the (get_semaphore_data s 5) in
      get_semaphore_data s 5 = Some e \<and> sem_initialized e \<and> 0 < sem_value e)"
    by code_simp
  define s where "s = state_after
    [SemInit 5 0 0 True True, Create 7 0 1, Proceed, SemWait 5 True, Proceed]"
  define d where "d = the (get_semaphore_data s 5)"
  define u where "u = state_after [SemInit 5 0 1 True True]"
  define e where "e = the (get_semaphore_data u 5)"
  from ev have r: "run [SemInit 5 0 0 True True, Create 7 0 1, Proceed, SemWait 5 True, Proceed]
      start = Some (s, UserCode)"
    and m: "semaphores s = [(5, d)]" and q: "0 < queue_size d"
    and g: "get_semaphore_data s 5 = Some d" and i: "sem_initialized d"
    and gu: "get_semaphore_data u 5 = Some e" and iu: "sem_initialized e"
    and vu: "0 < sem_value e"
    unfolding s_def d_def u_def e_def Let_def by blast+
  from r have re: "reachable s UserCode" by (rule run_start_reachable)
  from m have mem: "(5, d) \<in> set (semaphores s)" by simp
  from waiting_queue_value_zero [of s UserCode 5 d 5 d] re mem q have v: "sem_value d = 0"
    by blast
  from waiting_queue_value_zero [of s UserCode 5 d 5 d] g i q v
  have p: "\<exists>s' d'. sem_post s 5 = Ret 0 NoWrite s'
            \<and> s' = tcb_update (waiting_queue d ! 0) (\<lambda>t. t\<lparr>status := READY\<rparr>)
                   (put_semaphore_data s 5 d')
            \<and> get_semaphore_data s' 5 = Some d'
            \<and> sem_value d' = 0 \<and> queue_size d' = queue_size d - 1"
    by simp
  from waiting_queue_value_zero [of u UserCode 5 e 5 e True] gu iu vu
  have w: "sem_wait u 5 True
      = Ret 0 NoWrite (put_semaphore_data u 5 (e\<lparr>sem_value := sem_value e - 1\<rparr>))"
    by blast
  from re mem q v g i p gu iu vu w show ?thesis
    unfolding s_def d_def u_def e_def Let_def by simp
qed

section \<open>The joiner recorded in a record\<close>

text \<open>
  Claim C5, as the code has it.  In every reachable configuration, if the record of a
  slot \<open>t\<close> in use has \<open>joined_by = j\<close> with \<open>j \<noteq> -1\<close>, then \<open>j\<close> is a slot in use, and
  record \<open>j\<close> is \<open>RUNNING\<close> only if \<open>j\<close> is the current thread.  \<open>j\<close> is the current thread
  only inside the library: before a \<open>longjmp\<close>, or behind the \<open>setjmp\<close> of a
  \<open>pthread_join\<close> on \<open>t\<close>, where the clean-up that resets \<open>joined_by\<close> is still to come.
  Whenever user code runs, \<open>j\<close> is not the current thread and record \<open>j\<close> is not
  \<open>RUNNING\<close>.
\<close>

theorem recorded_joiner_not_running:
  assumes "reachable s p" "0 \<le> t" "t < num_threads s" "joined_by (tcb s t) \<noteq> - 1"
  shows "0 \<le> joined_by (tcb s t) \<and> joined_by (tcb s t) < num_threads s
    \<and> (status (tcb s (joined_by (tcb s t))) = RUNNING
         \<longrightarrow> joined_by (tcb s t) = current_thread s)
    \<and> (joined_by (tcb s t) = current_thread s
         \<longrightarrow> p = BeforeLongjmp \<or> (\<exists>v. p = AfterSetjmp t v))
    \<and> (p = UserCode \<longrightarrow> joined_by (tcb s t) \<noteq> current_thread s
         \<and> status (tcb s (joined_by (tcb s t))) \<noteq> RUNNING)"
proof -
  let ?j = "joined_by (tcb s t)"
  note iv = reachable_inv [OF assms(1)]
  have "initialized s"
  proof (rule ccontr)
    assume "\<not> initialized s"
    with iv have "num_threads s = 0" by (simp add: runtime_inv_def)
    with assms(2,3) show False by simp
  qed
  with iv have u: "running_is_current s" and j: "joiners_ok s" and po: "point_ok s p"
    by (simp_all add: runtime_inv_def)
  from assms(2,3) have t: "in_range s t" by (simp add: in_range_def)
  with j assms(4) have r: "in_range s ?j" unfolding joiners_ok_def by blast
  from r u have a: "status (tcb s ?j) = RUNNING \<longrightarrow> ?j = current_thread s"
    unfolding running_is_current_def by blast
  have b: "p = BeforeLongjmp \<or> (\<exists>v. p = AfterSetjmp t v)" if "?j = current_thread s"
  proof -
    from t that po have "point_joins p t" by (simp add: point_ok_def)
    then show ?thesis by (cases p) simp_all
  qed
  from a b have c: "p = UserCode \<longrightarrow> ?j \<noteq> current_thread s \<and> status (tcb s ?j) \<noteq> RUNNING"
    by auto
  from r a b c show ?thesis unfolding in_range_def by blast
qed

text \<open>
  The main thread has joined thread 1.  While thread 1 runs, the main thread is neither
  current nor \<open>RUNNING\<close>.  When thread 1 has called \<open>pthread_exit\<close> and stands before
  its \<open>longjmp\<close>, the main thread is current and \<open>RUNNING\<close> and still the recorded joiner.
\<close>

theorem recorded_joiner_not_running_witness:
  "(let s = state_after [Create 7 0 1, Proceed, Join 1 0, Proceed] in
      reachable s UserCode \<and> (0::int) \<le> 1 \<and> 1 < num_threads s \<and> joined_by (tcb s 1) = 0
      \<and> joined_by (tcb s 1) \<noteq> current_thread s \<and> status (tcb s 0) \<noteq> RUNNING)
   \<and> (let s = state_after [Create 7 0 1, Proceed, Join 1 0, Proceed, Exit 0] in
      reachable s BeforeLongjmp \<and> (0::int) \<le> 1 \<and> 1 < num_threads s \<and> joined_by (tcb s 1) = 0
      \<and> status (tcb s 0) = RUNNING \<and> joined_by (tcb s 1) = current_thread s)"
proof -
  have e: "(let s = state_after [Create 7 0 1, Proceed, Join 1 0, Proceed] in
      run [Create 7 0 1, Proceed, Join 1 0, Proceed] start = Some (s, UserCode)
      \<and> 1 < num_threads s \<and> joined_by (tcb s 1) = 0)
    \<and> (let s = state_after [Create 7 0 1, Proceed, Join 1 0, Proceed, Exit 0] in
      run [Create 7 0 1, Proceed, Join 1 0, Proceed, Exit 0] start = Some (s, BeforeLongjmp)
      \<and> 1 < num_threads s \<and> joined_by (tcb s 1) = 0 \<and> status (tcb s 0) = RUNNING)"
    by code_simp
  define s where "s = state_after [Create 7 0 1, Proceed, Join 1 0, Proceed]"
  define u where "u = state_after [Create 7 0 1, Proceed, Join 1 0, Proceed, Exit 0]"
  from e have r: "run [Create 7 0 1, Proceed, Join 1 0, Proceed] start = Some (s, UserCode)"
    and n: "1 < num_threads s" and j: "joined_by (tcb s 1) = 0"
    and ru: "run [Create 7 0 1, Proceed, Join 1 0, Proceed, Exit 0] start
      = Some (u, BeforeLongjmp)"
    and nu: "1 < num_threads u" and ju: "joined_by (tcb u 1) = 0"
    and su: "status (tcb u 0) = RUNNING"
    unfolding s_def u_def Let_def by blast+
  from r have re: "reachable s UserCode" by (rule run_start_reachable)
  from ru have reu: "reachable u BeforeLongjmp" by (rule run_start_reachable)
  from j have "joined_by (tcb s 1) \<noteq> - 1" by simp
  from recorded_joiner_not_running [OF re _ n this] j
  have A: "joined_by (tcb s 1) \<noteq> current_thread s \<and> status (tcb s 0) \<noteq> RUNNING" by simp
  from ju have "joined_by (tcb u 1) \<noteq> - 1" by simp
  from recorded_joiner_not_running [OF reu _ nu this] ju su
  have B: "joined_by (tcb u 1) = current_thread u" by simp
  from re n j A reu nu ju su B show ?thesis unfolding s_def u_def Let_def by simp
qed

text \<open>
  Claim C5 as stated fails after the target's exit.  The main thread creates threads 1
  and 2 and joins thread 1; thread 1 runs and exits, which marks the main thread
  \<open>READY\<close>, and the scheduler picks thread 2, which starts.  Record 1 still has
  \<open>joined_by = 0\<close>, and record 0 is \<open>READY\<close>, not \<open>BLOCKED\<close>.
\<close>

theorem joiner_ready_counterexample:
  "(let s = state_after
              [Create 7 0 1, Proceed, Create 8 0 2, Join 1 0, Proceed, Exit 0, Proceed] in
      reachable s UserCode \<and> joined_by (tcb s 1) = 0 \<and> status (tcb s 1) = EXITED
      \<and> status (tcb s 0) = READY \<and> status (tcb s 0) \<noteq> BLOCKED)"
proof -
  have e: "(let s = state_after
              [Create 7 0 1, Proceed, Create 8 0 2, Join 1 0, Proceed, Exit 0, Proceed] in
      run [Create 7 0 1, Proceed, Create 8 0 2, Join 1 0, Proceed, Exit 0, Proceed] start
        = Some (s, UserCode)
      \<and> joined_by (tcb s 1) = 0 \<and> status (tcb s 1) = EXITED \<and> status (tcb s 0) = READY)"
    by code_simp
  define s where "s = state_after
    [Create 7 0 1, Proceed, Create 8 0 2, Join 1 0, Proceed, Exit 0, Proceed]"
  from e have r: "run [Create 7 0 1, Proceed, Create 8 0 2, Join 1 0, Proceed, Exit 0, Proceed]
      start = Some (s, UserCode)"
    and f: "joined_by (tcb s 1) = 0" "status (tcb s 1) = EXITED" "status (tcb s 0) = READY"
    unfolding s_def Let_def by blast+
  from r have "reachable s UserCode" by (rule run_start_reachable)
  with f show ?thesis unfolding s_def Let_def by simp
qed

section \<open>Error returns of \<open>pthread_join\<close>\<close>

lemma schedule_and_unlock_not_ret: "schedule_and_unlock s \<noteq> Ret r w s'"
  by (cases "schedule s") (simp_all add: schedule_and_unlock_def)

text \<open>
  Claim C10.  \<open>pthread_join\<close> returns \<open>ESRCH\<close> when the lookup finds no record, \<open>EINVAL\<close>
  when the record found has \<open>has_been_joined\<close> set, and \<open>EDEADLK\<close> when the record found
  is the caller's; whenever it returns a code other than 0, that code is one of the
  three, nothing is written through \<open>value_ptr\<close> and the whole state (every field of
  every record, all counters) is the state it was called in.
\<close>

theorem pthread_join_error_unchanged:
  "(find_thread s h 0 = - 1 \<longrightarrow> pthread_join s h p = Ret ESRCH NoWrite s)
   \<and> (find_thread s h 0 \<noteq> - 1 \<and> has_been_joined (tcb s (find_thread s h 0))
        \<longrightarrow> pthread_join s h p = Ret EINVAL NoWrite s)
   \<and> (find_thread s h 0 \<noteq> - 1 \<and> \<not> has_been_joined (tcb s (find_thread s h 0))
        \<and> find_thread s h 0 = current_thread s
        \<longrightarrow> pthread_join s h p = Ret EDEADLK NoWrite s)
   \<and> (\<forall>r w s'. pthread_join s h p = Ret r w s' \<and> r \<noteq> 0
        \<longrightarrow> s' = s \<and> w = NoWrite \<and> (r = ESRCH \<or> r = EINVAL \<or> r = EDEADLK))"
proof -
  have "s' = s \<and> w = NoWrite \<and> (r = ESRCH \<or> r = EINVAL \<or> r = EDEADLK)"
    if "pthread_join s h p = Ret r w s' \<and> r \<noteq> 0" for r w s'
    using that
    by (auto simp: pthread_join_def Let_def schedule_and_unlock_not_ret split: if_splits)
  moreover have "find_thread s h 0 = - 1 \<longrightarrow> pthread_join s h p = Ret ESRCH NoWrite s"
    by (simp add: pthread_join_def Let_def)
  moreover have "find_thread s h 0 \<noteq> - 1 \<and> has_been_joined (tcb s (find_thread s h 0))
        \<longrightarrow> pthread_join s h p = Ret EINVAL NoWrite s"
    by (simp add: pthread_join_def Let_def)
  moreover have "find_thread s h 0 \<noteq> - 1 \<and> \<not> has_been_joined (tcb s (find_thread s h 0))
        \<and> find_thread s h 0 = current_thread s
        \<longrightarrow> pthread_join s h p = Ret EDEADLK NoWrite s"
    by (auto simp: pthread_join_def Let_def)
  ultimately show ?thesis by blast
qed

text \<open>
  After the first \<open>pthread_create\<close>: handle 5 is unknown, handle 0 is the caller.  After
  thread 1 has reaped slot 0 through a join on the main thread, handle 0 is already joined.
\<close>

theorem pthread_join_error_unchanged_witness:
  "(let s = state_after [Create 7 0 1, Proceed];
        s2 = state_after [Create 7 0 1, Proceed, Join 1 0, Proceed, Join 0 0, Proceed, Proceed] in
      find_thread s 5 0 = - 1 \<and> pthread_join s 5 0 = Ret ESRCH NoWrite s
      \<and> find_thread s 0 0 = current_thread s \<and> \<not> has_been_joined (tcb s 0)
      \<and> pthread_join s 0 0 = Ret EDEADLK NoWrite s
      \<and> find_thread s2 0 0 = 0 \<and> has_been_joined (tcb s2 0)
      \<and> pthread_join s2 0 0 = Ret EINVAL NoWrite s2)"
proof -
  have e: "(let s = state_after [Create 7 0 1, Proceed];
        s2 = state_after [Create 7 0 1, Proceed, Join 1 0, Proceed, Join 0 0, Proceed, Proceed] in
      find_thread s 5 0 = - 1
      \<and> find_thread s 0 0 = 0 \<and> current_thread s = 0 \<and> \<not> has_been_joined (tcb s 0)
      \<and> find_thread s2 0 0 = 0 \<and> has_been_joined (tcb s2 0))"
    by code_simp
  define s where "s = state_after [Create 7 0 1, Proceed]"
  define s2 where
    "s2 = state_after [Create 7 0 1, Proceed, Join 1 0, Proceed, Join 0 0, Proceed, Proceed]"
  from e have f: "find_thread s 5 0 = - 1" "find_thread s 0 0 = 0" "current_thread s = 0"
    "\<not> has_been_joined (tcb s 0)" "find_thread s2 0 0 = 0" "has_been_joined (tcb s2 0)"
    unfolding s_def s2_def Let_def by blast+
  from f pthread_join_error_unchanged [of s 5 0]
  have a: "pthread_join s 5 0 = Ret ESRCH NoWrite s" by blast
  from f pthread_join_error_unchanged [of s 0 0]
  have b: "pthread_join s 0 0 = Ret EDEADLK NoWrite s" by simp
  from f pthread_join_error_unchanged [of s2 0 0]
  have c: "pthread_join s2 0 0 = Ret EINVAL NoWrite s2" by simp
  from f a b c show ?thesis unfolding s_def s2_def Let_def by simp
qed

section \<open>A second join on the same handle\<close>

text \<open>
  Claim C1 at a concrete run.  The main thread creates a thread (handle 1) and joins it
  with \<open>value_ptr = 100\<close>: the call stands before its \<open>longjmp\<close> with thread 1 current,
  and the jump starts thread 1.  Thread 1 calls \<open>pthread_exit(42)\<close>, which makes the main
  thread current; its jump lands behind the \<open>setjmp\<close> of the main thread's join, and the
  rest of the join delivers 42 and returns 0.  Reaping set \<open>has_been_joined\<close> of slot 1
  and cleared its \<open>thread_id\<close> to 0, so a second \<open>pthread_join\<close> on handle 1 finds no
  record and returns \<open>ESRCH\<close>, not \<open>EINVAL\<close>.
\<close>

theorem second_join_returns_esrch:
  "(let s1 = state_after [Create 7 0 1, Proceed];
        s2 = state_after [Create 7 0 1, Proceed, Join 1 100];
        s3 = state_after [Create 7 0 1, Proceed, Join 1 100, Proceed, Exit 42];
        s4 = state_after [Create 7 0 1, Proceed, Join 1 100, Proceed, Exit 42, Proceed, Proceed] in
      pthread_create boot 7 0 1 = Ret 0 (WriteHandle 1) s1
      \<and> pthread_join s1 1 100 = Jumps s2 \<and> current_thread s2 = 1 \<and> longjmp s2 = Starts
      \<and> pthread_exit s2 42 = Jumps s3 \<and> current_thread s3 = 0
      \<and> longjmp s3 = Resumes 1 100
      \<and> pthread_join_resumed s3 1 100 = Ret 0 (WriteValue 100 42) s4
      \<and> run [Create 7 0 1, Proceed, Join 1 100, Proceed, Exit 42, Proceed, Proceed] start
          = Some (s4, UserCode)
      \<and> current_thread s4 = 0 \<and> has_been_joined (tcb s4 1) \<and> thread_id (tcb s4 1) = 0
      \<and> pthread_join s4 1 100 = Ret ESRCH NoWrite s4 \<and> ESRCH \<noteq> EINVAL)"
  by code_simp

section \<open>Failures of \<open>pthread_create\<close>\<close>






section \<open>\<open>sem_post\<close>\<close>

lemma shift_queue_tl:
  assumes "n \<le> length q"
  shows "take (n - 1) (shift_queue q n 0) = tl (take n q)"
proof (rule nth_equalityI)
  from assms shift_queue_spec [OF assms, of 0]
  show "length (take (n - 1) (shift_queue q n 0)) = length (tl (take n q))" by simp
next
  fix i assume "i < length (take (n - 1) (shift_queue q n 0))"
  then have i: "i < n - 1" by simp
  with shift_queue_spec [OF assms, of 0] have "shift_queue q n 0 ! i = q ! (i + 1)" by simp
  moreover from i assms have "tl (take n q) ! i = q ! (i + 1)" by (simp add: nth_tl)
  ultimately show "take (n - 1) (shift_queue q n 0) ! i = tl (take n q) ! i" using i by simp
qed

text \<open>
  Claim C6.  For a handle with an initialised record \<open>d\<close> (whose live cells fit its
  buffer): with a non-empty queue, \<open>sem_post\<close> returns 0, marks the thread in cell 0
  \<open>READY\<close>, leaves the remaining waiters in their order one cell nearer the head, and
  does not change the value; with an empty queue it increments the value if that is below
  \<open>SEM_VALUE_MAX - 1\<close> and otherwise returns -1 with the state unchanged.  It always
  returns to its caller, and \<open>current_thread\<close> is unchanged.
\<close>

theorem sem_post_spec:
  assumes "get_semaphore_data s sem = Some d" "sem_initialized d"
    "queue_size d \<le> length (waiting_queue d)"
  shows "(0 < queue_size d \<longrightarrow>
           (\<exists>s' d'. sem_post s sem = Ret 0 NoWrite s'
              \<and> s' = tcb_update (waiting_queue d ! 0) (\<lambda>t. t\<lparr>status := READY\<rparr>)
                       (put_semaphore_data s sem d')
              \<and> get_semaphore_data s' sem = Some d'
              \<and> queue_size d' = queue_size d - 1
              \<and> take (queue_size d') (waiting_queue d') = tl (take (queue_size d) (waiting_queue d))
              \<and> sem_value d' = sem_value d
              \<and> (0 \<le> waiting_queue d ! 0 \<and> nat (waiting_queue d ! 0) < length (tcb_array s)
                   \<longrightarrow> status (tcb s' (waiting_queue d ! 0)) = READY)))
       \<and> (queue_size d = 0 \<and> sem_value d < SEM_VALUE_MAX - 1 \<longrightarrow>
            sem_post s sem
              = Ret 0 NoWrite (put_semaphore_data s sem (d\<lparr>sem_value := sem_value d + 1\<rparr>)))
       \<and> (queue_size d = 0 \<and> \<not> sem_value d < SEM_VALUE_MAX - 1 \<longrightarrow>
            sem_post s sem = Ret (- 1) NoWrite s)
       \<and> (\<exists>r s'. sem_post s sem = Ret r NoWrite s' \<and> current_thread s' = current_thread s)"
proof -
  let ?w = "waiting_queue d ! 0"
  let ?d' = "d\<lparr>waiting_queue := shift_queue (waiting_queue d) (queue_size d) 0,
                queue_size := queue_size d - 1\<rparr>"
  let ?s' = "tcb_update ?w (\<lambda>t. t\<lparr>status := READY\<rparr>) (put_semaphore_data s sem ?d')"
  have A: "sem_post s sem = Ret 0 NoWrite ?s'" if "0 < queue_size d"
    using that assms(1,2) by (simp add: sem_post_def Let_def)
  have A1: "get_semaphore_data ?s' sem = Some ?d'"
    using assms(1) by (simp add: get_put_semaphore_data)
  have A2: "take (queue_size ?d') (waiting_queue ?d') = tl (take (queue_size d) (waiting_queue d))"
    using shift_queue_tl [OF assms(3)] by simp
  have A3: "status (tcb ?s' ?w) = READY"
    if "0 \<le> ?w \<and> nat ?w < length (tcb_array s)"
    using that by (simp add: tcb_tcb_update_gen)
  have B: "sem_post s sem
      = Ret 0 NoWrite (put_semaphore_data s sem (d\<lparr>sem_value := sem_value d + 1\<rparr>))"
    if "queue_size d = 0 \<and> sem_value d < SEM_VALUE_MAX - 1"
    using that assms(1,2) by (simp add: sem_post_def)
  have C: "sem_post s sem = Ret (- 1) NoWrite s"
    if "queue_size d = 0 \<and> \<not> sem_value d < SEM_VALUE_MAX - 1"
    using that assms(1,2) by (simp add: sem_post_def)
  have D: "\<exists>r s'. sem_post s sem = Ret r NoWrite s' \<and> current_thread s' = current_thread s"
  proof (cases "0 < queue_size d")
    case True
    from A [OF True] show ?thesis by simp
  next
    case False
    then show ?thesis using B C by (cases "sem_value d < SEM_VALUE_MAX - 1") auto
  qed
  have "0 < queue_size d \<longrightarrow>
           (\<exists>s' d'. sem_post s sem = Ret 0 NoWrite s'
              \<and> s' = tcb_update (waiting_queue d ! 0) (\<lambda>t. t\<lparr>status := READY\<rparr>)
                       (put_semaphore_data s sem d')
              \<and> get_semaphore_data s' sem = Some d'
              \<and> queue_size d' = queue_size d - 1
              \<and> take (queue_size d') (waiting_queue d') = tl (take (queue_size d) (waiting_queue d))
              \<and> sem_value d' = sem_value d
              \<and> (0 \<le> waiting_queue d ! 0 \<and> nat (waiting_queue d ! 0) < length (tcb_array s)
                   \<longrightarrow> status (tcb s' (waiting_queue d ! 0)) = READY))"
  proof
    assume q: "0 < queue_size d"
    show "\<exists>s' d'. sem_post s sem = Ret 0 NoWrite s'
              \<and> s' = tcb_update (waiting_queue d ! 0) (\<lambda>t. t\<lparr>status := READY\<rparr>)
                       (put_semaphore_data s sem d')
              \<and> get_semaphore_data s' sem = Some d'
              \<and> queue_size d' = queue_size d - 1
              \<and> take (queue_size d') (waiting_queue d') = tl (take (queue_size d) (waiting_queue d))
              \<and> sem_value d' = sem_value d
              \<and> (0 \<le> waiting_queue d ! 0 \<and> nat (waiting_queue d ! 0) < length (tcb_array s)
                   \<longrightarrow> status (tcb s' (waiting_queue d ! 0)) = READY)"
      using A [OF q] A1 A2 A3
      by (intro exI [of _ ?s'] exI [of _ ?d']) simp
  qed
  with B C D show ?thesis by blast
qed

lemma boot_fields:
  "semaphores boot = []" "initialized boot = False" "num_threads boot = 0"
  "current_thread boot = 0"
  by (simp_all add: boot_def)

text \<open>
  Three calls.  With the main thread queued on a semaphore of value 0, thread 1 (which
  has started) posts: the main thread becomes \<open>READY\<close>, the queue is empty again and
  thread 1 still runs.
  On a fresh semaphore of value 0 the value becomes 1.  On a fresh semaphore of value
  65535 the call fails.
\<close>

theorem sem_post_spec_witness:
  "(let s = state_after
                [SemInit 5 0 0 True True, Create 7 0 1, Proceed, SemWait 5 True, Proceed];
        d = the (get_semaphore_data s 5) in
      get_semaphore_data s 5 = Some d \<and> sem_initialized d
      \<and> queue_size d \<le> length (waiting_queue d) \<and> 0 < queue_size d
      \<and> waiting_queue d ! 0 = 0 \<and> current_thread s = 1
      \<and> (\<exists>s' d'. sem_post s 5 = Ret 0 NoWrite s' \<and> get_semaphore_data s' 5 = Some d'
            \<and> queue_size d' = queue_size d - 1 \<and> sem_value d' = sem_value d
            \<and> status (tcb s' 0) = READY \<and> current_thread s' = 1))
   \<and> (let d = \<lparr>sem_initialized = True, sem_value = 0, waiting_queue = replicate 16 0,
                  queue_size = 0, queue_capacity = 16\<rparr>;
          s = boot\<lparr>semaphores := [(5, d)]\<rparr> in
        run [SemInit 5 0 0 True True] start = Some (s, UserCode)
        \<and> sem_post s 5 = Ret 0 NoWrite (put_semaphore_data s 5 (d\<lparr>sem_value := 1\<rparr>)))
   \<and> (let d = \<lparr>sem_initialized = True, sem_value = 65535, waiting_queue = replicate 16 0,
                  queue_size = 0, queue_capacity = 16\<rparr>;
          s = boot\<lparr>semaphores := [(5, d)]\<rparr> in
        run [SemInit 5 0 65535 True True] start = Some (s, UserCode)
        \<and> sem_post s 5 = Ret (- 1) NoWrite s)"
proof -
  have e: "(let s = state_after
                [SemInit 5 0 0 True True, Create 7 0 1, Proceed, SemWait 5 True, Proceed];
        d = the (get_semaphore_data s 5) in
      get_semaphore_data s 5 = Some d \<and> sem_initialized d
      \<and> queue_size d \<le> length (waiting_queue d) \<and> 0 < queue_size d
      \<and> waiting_queue d ! 0 = 0 \<and> current_thread s = 1
      \<and> nat 0 < length (tcb_array s))"
    by code_simp
  define s where "s = state_after
    [SemInit 5 0 0 True True, Create 7 0 1, Proceed, SemWait 5 True, Proceed]"
  define d where "d = the (get_semaphore_data s 5)"
  from e have g: "get_semaphore_data s 5 = Some d" and i: "sem_initialized d"
    and l: "queue_size d \<le> length (waiting_queue d)" and q: "0 < queue_size d"
    and w: "waiting_queue d ! 0 = 0" and c: "current_thread s = 1"
    and r: "nat 0 < length (tcb_array s)"
    unfolding s_def d_def Let_def by blast+
  from sem_post_spec [OF g i l] q w r
  have "\<exists>s' d'. sem_post s 5 = Ret 0 NoWrite s' \<and> get_semaphore_data s' 5 = Some d'
            \<and> queue_size d' = queue_size d - 1 \<and> sem_value d' = sem_value d
            \<and> status (tcb s' 0) = READY \<and> current_thread s' = current_thread s"
    by fastforce
  with g i l q w c have A: "(let s = state_after
                [SemInit 5 0 0 True True, Create 7 0 1, Proceed, SemWait 5 True, Proceed];
        d = the (get_semaphore_data s 5) in
      get_semaphore_data s 5 = Some d \<and> sem_initialized d
      \<and> queue_size d \<le> length (waiting_queue d) \<and> 0 < queue_size d
      \<and> waiting_queue d ! 0 = 0 \<and> current_thread s = 1
      \<and> (\<exists>s' d'. sem_post s 5 = Ret 0 NoWrite s' \<and> get_semaphore_data s' 5 = Some d'
            \<and> queue_size d' = queue_size d - 1 \<and> sem_value d' = sem_value d
            \<and> status (tcb s' 0) = READY \<and> current_thread s' = 1))"
    unfolding s_def d_def Let_def by simp
  have B: "run [SemInit 5 0 v True True] start
      = Some (boot\<lparr>semaphores := [(5, dv)]\<rparr>, UserCode)"
    if "v < 65536" "dv = \<lparr>sem_initialized = True, sem_value = v, waiting_queue = replicate 16 0,
                  queue_size = 0, queue_capacity = 16\<rparr>" for v dv
    using that
    by (simp add: start_def sem_init_def add_semaphore_mapping_def SEM_VALUE_MAX_def
        MAX_SEMAPHORES_def boot_fields)
  have G: "get_semaphore_data (boot\<lparr>semaphores := [(5, dv)]\<rparr>) 5 = Some dv" for dv
    by (simp add: get_semaphore_data_def)
  let ?d0 = "\<lparr>sem_initialized = True, sem_value = 0, waiting_queue = replicate 16 0,
                  queue_size = 0, queue_capacity = 16\<rparr>"
  let ?d1 = "\<lparr>sem_initialized = True, sem_value = 65535, waiting_queue = replicate 16 0,
                  queue_size = 0, queue_capacity = 16\<rparr>"
  from sem_post_spec [OF G [of ?d0]]
  have P0: "sem_post (boot\<lparr>semaphores := [(5, ?d0)]\<rparr>) 5
      = Ret 0 NoWrite (put_semaphore_data (boot\<lparr>semaphores := [(5, ?d0)]\<rparr>) 5
          (?d0\<lparr>sem_value := 1\<rparr>))"
    by (simp add: SEM_VALUE_MAX_def)
  from sem_post_spec [OF G [of ?d1]]
  have P1: "sem_post (boot\<lparr>semaphores := [(5, ?d1)]\<rparr>) 5
      = Ret (- 1) NoWrite (boot\<lparr>semaphores := [(5, ?d1)]\<rparr>)"
    by (simp add: SEM_VALUE_MAX_def)
  from A B [of 0 ?d0] B [of 65535 ?d1] P0 P1 show ?thesis by (simp add: Let_def)
qed

section \<open>Errors of \<open>sem_wait\<close>\<close>

text \<open>
  Claim C7, as the code has it.  \<open>sem_wait\<close> returns -1 exactly when the handle has no
  initialised record in the directory, or when the value is 0, the queue is full and
  \<open>realloc\<close> fails.  With an initialised record of value above 0 it decrements the value
  and returns 0 at once.
\<close>

theorem sem_wait_errors:
  "((\<exists>w s'. sem_wait s sem rm = Ret (- 1) w s') \<longleftrightarrow>
      (case get_semaphore_data s sem of
         None \<Rightarrow> True
       | Some d \<Rightarrow> \<not> sem_initialized d
           \<or> (sem_value d = 0 \<and> queue_capacity d \<le> queue_size d \<and> \<not> rm)))
   \<and> (\<forall>d. get_semaphore_data s sem = Some d \<and> sem_initialized d \<and> 0 < sem_value d \<longrightarrow>
        sem_wait s sem rm
          = Ret 0 NoWrite (put_semaphore_data s sem (d\<lparr>sem_value := sem_value d - 1\<rparr>)))"
proof (cases "get_semaphore_data s sem")
  case None
  then show ?thesis by (simp add: sem_wait_def)
next
  case (Some d)
  show ?thesis
  proof (cases "\<not> sem_initialized d \<or> 0 < sem_value d
      \<or> (queue_capacity d \<le> queue_size d \<and> \<not> rm)")
    case True
    with Some show ?thesis by (auto simp: sem_wait_def)
  next
    case False
    with Some have "\<exists>s3. sem_wait s sem rm = schedule_and_unlock s3"
      by (cases "queue_capacity d \<le> queue_size d") (simp_all add: sem_wait_def Let_def, blast+)
    then obtain s3 where "sem_wait s sem rm = schedule_and_unlock s3" ..
    with schedule_and_unlock_not_ret have "\<not> (\<exists>w s'. sem_wait s sem rm = Ret (- 1) w s')"
      by simp
    with Some False show ?thesis by auto
  qed
qed

text \<open>
  On a semaphore of value 1 the call decrements and returns 0; on a handle that was never
  initialised it returns -1.
\<close>

theorem sem_wait_errors_witness:
  "(let s = state_after [SemInit 5 0 1 True True];
        d = the (get_semaphore_data s 5) in
      get_semaphore_data s 5 = Some d \<and> sem_initialized d \<and> 0 < sem_value d
      \<and> sem_wait s 5 True
          = Ret 0 NoWrite (put_semaphore_data s 5 (d\<lparr>sem_value := sem_value d - 1\<rparr>))
      \<and> get_semaphore_data s 9 = None
      \<and> (\<exists>w s'. sem_wait s 9 True = Ret (- 1) w s'))"
proof -
  have e: "(let s = state_after [SemInit 5 0 1 True True];
        d = the (get_semaphore_data s 5) in
      get_semaphore_data s 5 = Some d \<and> sem_initialized d \<and> 0 < sem_value d
      \<and> get_semaphore_data s 9 = None)"
    by code_simp
  define s where "s = state_after [SemInit 5 0 1 True True]"
  define d where "d = the (get_semaphore_data s 5)"
  from e have g: "get_semaphore_data s 5 = Some d" and i: "sem_initialized d"
    and v: "0 < sem_value d" and n: "get_semaphore_data s 9 = None"
    unfolding s_def d_def Let_def by blast+
  from sem_wait_errors [of s 5 True] g i v
  have A: "sem_wait s 5 True
      = Ret 0 NoWrite (put_semaphore_data s 5 (d\<lparr>sem_value := sem_value d - 1\<rparr>))"
    by blast
  from sem_wait_errors [of s 9 True] n
  have B: "\<exists>w s'. sem_wait s 9 True = Ret (- 1) w s'" by simp
  from g i v n A B show ?thesis unfolding s_def d_def Let_def by simp
qed

text \<open>
  Claim C7 as stated fails.  A semaphore is initialised with value 0 and sixteen threads
  are created; the main thread and threads 1 to 15 wait on it in
  turn, each jumping into the next thread, which fills the sixteen cells of the queue.
  Thread 16 then waits while \<open>realloc\<close> fails: the call returns -1 although the
  semaphore is initialised and not destroyed.
\<close>

theorem sem_wait_full_queue_counterexample:
  "(let s = state_after
               (SemInit 5 0 0 True True # Create 7 0 1 # Proceed
                # replicate 15 (Create 7 0 1) @ concat (replicate 16 [SemWait 5 True, Proceed])) in
      reachable s UserCode \<and> current_thread s = 16
      \<and> map_option sem_initialized (get_semaphore_data s 5) = Some True
      \<and> map_option queue_size (get_semaphore_data s 5) = Some 16
      \<and> sem_wait s 5 False = Ret (- 1) NoWrite s)"
proof -
  have e: "(let s = state_after
               (SemInit 5 0 0 True True # Create 7 0 1 # Proceed
                # replicate 15 (Create 7 0 1) @ concat (replicate 16 [SemWait 5 True, Proceed])) in
      run (SemInit 5 0 0 True True # Create 7 0 1 # Proceed
                # replicate 15 (Create 7 0 1) @ concat (replicate 16 [SemWait 5 True, Proceed]))
          start = Some (s, UserCode)
      \<and> current_thread s = 16
      \<and> map_option sem_initialized (get_semaphore_data s 5) = Some True
      \<and> map_option queue_size (get_semaphore_data s 5) = Some 16
      \<and> sem_wait s 5 False = Ret (- 1) NoWrite s)"
    by code_simp
  define s where "s = state_after
               (SemInit 5 0 0 True True # Create 7 0 1 # Proceed
                # replicate 15 (Create 7 0 1) @ concat (replicate 16 [SemWait 5 True, Proceed]))"
  from e have r: "run (SemInit 5 0 0 True True # Create 7 0 1 # Proceed
                # replicate 15 (Create 7 0 1) @ concat (replicate 16 [SemWait 5 True, Proceed]))
          start = Some (s, UserCode)"
    and f: "current_thread s = 16"
      "map_option sem_initialized (get_semaphore_data s 5) = Some True"
      "map_option queue_size (get_semaphore_data s 5) = Some 16"
      "sem_wait s 5 False = Ret (- 1) NoWrite s"
    unfolding s_def Let_def by blast+
  from r have "reachable s UserCode" by (rule run_start_reachable)
  with f show ?thesis unfolding s_def Let_def by simp
qed

section \<open>\<open>pthread_exit\<close>\<close>

text \<open>
  Claim C9, as the code has it.  \<open>pthread_exit(v)\<close>, called from user code in a
  reachable configuration, goes through a state \<open>s3\<close> in which the caller's record
  holds \<open>v\<close> and every record in use other than the caller's and that of the joiner
  recorded in the caller's \<open>joined_by\<close> is as before; once the runtime is initialised,
  the caller's record is \<open>EXITED\<close> in \<open>s3\<close> and the recorded joiner (if any) is \<open>READY\<close>.
  The call never returns to its caller.  If every record in use is \<open>EXITED\<close> in \<open>s3\<close>
  (as it is before initialisation, when no record is in use and the cleanup has nothing
  to do), the global cleanup runs and the process ends with exit code 0.  Otherwise the
  call runs \<open>schedule\<close>, unblocks the signal and stands before its \<open>longjmp\<close> into the
  buffer of the thread that is then current: the first \<open>READY\<close> slot in scan order, now
  \<open>RUNNING\<close>, if there is one; if no slot is \<open>READY\<close>, the state is still \<open>s3\<close>, the
  current thread is still the caller, and the jump goes through the caller's own
  buffer.  At that point the signal handler can still run before the jump is taken.
\<close>

theorem pthread_exit_spec:
  assumes "reachable s UserCode"
  shows "\<exists>s3. return_value (tcb s3 (current_thread s)) = v
      \<and> (initialized s \<longrightarrow> status (tcb s3 (current_thread s)) = EXITED)
      \<and> (initialized s \<and> joined_by (tcb s (current_thread s)) \<noteq> - 1 \<longrightarrow>
           status (tcb s3 (joined_by (tcb s (current_thread s)))) = READY)
      \<and> (\<forall>i. 0 \<le> i \<and> i < num_threads s \<and> i \<noteq> current_thread s
             \<and> i \<noteq> joined_by (tcb s (current_thread s)) \<longrightarrow> tcb s3 i = tcb s i)
      \<and> num_threads s3 = num_threads s \<and> current_thread s3 = current_thread s
      \<and> (\<forall>r w s'. pthread_exit s v \<noteq> Ret r w s')
      \<and> (\<not> initialized s \<longrightarrow> pthread_exit s v = Terminated 0 s3)
      \<and> (if \<forall>i. 0 \<le> i \<and> i < num_threads s \<longrightarrow> status (tcb s3 i) = EXITED
         then pthread_exit s v = Terminated 0 (cleanup_all_resources s3)
         else \<exists>s4. pthread_exit s v = Jumps s4 \<and> schedule s3 = Continue s4
                \<and> (case find (\<lambda>i. status (tcb s3 i) = READY) (scan_order s3) of
                     Some i \<Rightarrow>
                       s4 = tcb_update i (\<lambda>t. t\<lparr>status := RUNNING\<rparr>) (s3\<lparr>current_thread := i\<rparr>)
                   | None \<Rightarrow> s4 = s3)
                \<and> exec (Exit v) s UserCode = Some (s4, BeforeLongjmp)
                \<and> exec Tick s4 BeforeLongjmp = after (signal_handler s4 BeforeLongjmp))"
proof -
  let ?c = "current_thread s"
  let ?j = "joined_by (tcb s ?c)"
  let ?s1 = "tcb_update ?c (\<lambda>t. t\<lparr>return_value := v\<rparr>) s"
  let ?s2 = "tcb_update ?c (\<lambda>t. t\<lparr>status := EXITED\<rparr>) ?s1"
  let ?jb = "joined_by (tcb ?s2 ?c)"
  let ?s3 = "if ?jb \<noteq> - 1 then tcb_update ?jb (\<lambda>t. t\<lparr>status := READY\<rparr>) ?s2 else ?s2"
  define s3 where "s3 = ?s3"
  have e: "pthread_exit s v = (if all_exited s3 then Terminated 0 (cleanup_all_resources s3)
      else schedule_and_unlock s3)"
    by (simp add: pthread_exit_def Let_def s3_def)
  have n3: "num_threads s3 = num_threads s" by (simp add: s3_def)
  have l3: "length (tcb_array s3) = length (tcb_array s)" by (simp add: s3_def)
  have k3: "current_thread s3 = ?c" by (simp add: s3_def)
  have nr: "\<forall>r w s'. pthread_exit s v \<noteq> Ret r w s'"
    unfolding e by (simp add: schedule_and_unlock_not_ret)
  have xq: "exec (Exit v) s UserCode = after (pthread_exit s v)" by simp
  from assms have iv: "user_inv s" using reachable_inv [of s UserCode] by (simp add: runtime_inv_user)
  show ?thesis
  proof (cases "initialized s")
    case False
    with iv have b: "tcb_array s = tcb_array boot" "num_threads s = 0" "?c = 0"
      by (simp_all add: user_inv_def)
    have none: "\<not> (0 \<le> i \<and> i < num_threads s)" for i using b(2) by arith
    from b n3 have "all_exited s3" by (simp add: all_exited_uninit)
    with e have te: "pthread_exit s v = Terminated 0 (cleanup_all_resources s3)" by simp
    from False have "cleanup_all_resources s3 = s3"
      by (simp add: cleanup_all_resources_def s3_def)
    with te have Q0: "pthread_exit s v = Terminated 0 s3" by simp
    from none have all: "\<forall>i. 0 \<le> i \<and> i < num_threads s \<longrightarrow> status (tcb s3 i) = EXITED"
      by blast
    from te all have Q1: "if \<forall>i. 0 \<le> i \<and> i < num_threads s \<longrightarrow> status (tcb s3 i) = EXITED
         then pthread_exit s v = Terminated 0 (cleanup_all_resources s3)
         else \<exists>s4. pthread_exit s v = Jumps s4 \<and> schedule s3 = Continue s4
                \<and> (case find (\<lambda>i. status (tcb s3 i) = READY) (scan_order s3) of
                     Some i \<Rightarrow>
                       s4 = tcb_update i (\<lambda>t. t\<lparr>status := RUNNING\<rparr>) (s3\<lparr>current_thread := i\<rparr>)
                   | None \<Rightarrow> s4 = s3)
                \<and> exec (Exit v) s UserCode = Some (s4, BeforeLongjmp)
                \<and> exec Tick s4 BeforeLongjmp = after (signal_handler s4 BeforeLongjmp)"
      by (simp only: if_P)
    from none have Q2: "\<forall>i. 0 \<le> i \<and> i < num_threads s \<and> i \<noteq> ?c \<and> i \<noteq> ?j
        \<longrightarrow> tcb s3 i = tcb s i"
      by blast
    from b have Q3: "return_value (tcb s3 ?c) = v"
      by (simp add: s3_def tcb_tcb_update_gen boot_def)
    from Q0 Q1 Q2 Q3 False n3 k3 nr show ?thesis by (intro exI [of _ s3]) blast
  next
    case True
    with iv have t: "table_ok s" and j: "joiners_ok s" and jc: "joiner_not_current s"
      by (simp_all add: user_inv_def)
    from t have c: "in_range s ?c" by (simp add: table_ok_def)
    from c jc have jn: "?j \<noteq> ?c" by (simp add: joiner_not_current_def)
    from c j have jr: "?j \<noteq> - 1 \<Longrightarrow> in_range s ?j" unfolding joiners_ok_def by blast
    have t2: "table_ok ?s2" using t by simp
    have c2: "tcb ?s2 i = (if i = ?c then (tcb s ?c)\<lparr>return_value := v, status := EXITED\<rparr>
        else tcb s i)" if "in_range s i" for i
      using that t c by (simp add: tcb_update_in_range)
    from c c2 have j2: "?jb = ?j" by simp
    have c3: "tcb s3 i = (if i = ?j then (tcb ?s2 ?j)\<lparr>status := READY\<rparr> else tcb ?s2 i)"
      if "in_range s i" for i
    proof (cases "?j = - 1")
      case True
      with that show ?thesis by (simp add: s3_def j2 in_range_def)
    next
      case False
      with jr have "in_range ?s2 ?j" by simp
      with that t2 False show ?thesis by (simp add: s3_def j2 tcb_update_in_range)
    qed
    have t3: "table_ok s3" using t by (simp add: s3_def)
    have i3: "initialized s3" using True by (simp add: s3_def)
    from t have "nat (num_threads s) \<le> length (tcb_array s)"
      unfolding table_ok_def MAX_THREADS_def by linarith
    then have le3: "nat (num_threads s3) \<le> length (tcb_array s3)" by (simp only: n3 l3)
    from all_exited_iff [OF le3] have ae: "all_exited s3 \<longleftrightarrow>
        (\<forall>i. 0 \<le> i \<and> i < num_threads s \<longrightarrow> status (tcb s3 i) = EXITED)"
      by (simp only: n3)
    have P1: "return_value (tcb s3 ?c) = v" "status (tcb s3 ?c) = EXITED"
      using c c2 c3 jn by simp_all
    have P2: "?j \<noteq> - 1 \<longrightarrow> status (tcb s3 ?j) = READY"
      using jr c3 by simp
    have P3: "\<forall>i. 0 \<le> i \<and> i < num_threads s \<and> i \<noteq> ?c \<and> i \<noteq> ?j \<longrightarrow> tcb s3 i = tcb s i"
      using c2 c3 by (simp add: in_range_def)
    from t3 have pre: "1 \<le> num_threads s3" "0 \<le> current_thread s3"
        "current_thread s3 < num_threads s3"
      unfolding table_ok_def in_range_def by simp_all
    note ch = schedule_char [OF pre le3]
    have P5: "if \<forall>i. 0 \<le> i \<and> i < num_threads s \<longrightarrow> status (tcb s3 i) = EXITED
         then pthread_exit s v = Terminated 0 (cleanup_all_resources s3)
         else \<exists>s4. pthread_exit s v = Jumps s4 \<and> schedule s3 = Continue s4
                \<and> (case find (\<lambda>i. status (tcb s3 i) = READY) (scan_order s3) of
                     Some i \<Rightarrow>
                       s4 = tcb_update i (\<lambda>t. t\<lparr>status := RUNNING\<rparr>) (s3\<lparr>current_thread := i\<rparr>)
                   | None \<Rightarrow> s4 = s3)
                \<and> exec (Exit v) s UserCode = Some (s4, BeforeLongjmp)
                \<and> exec Tick s4 BeforeLongjmp = after (signal_handler s4 BeforeLongjmp)"
    proof (cases "\<forall>i. 0 \<le> i \<and> i < num_threads s \<longrightarrow> status (tcb s3 i) = EXITED")
      case True
      with e ae show ?thesis by simp
    next
      case ne: False
      then have ne3: "\<not> (\<forall>i. 0 \<le> i \<and> i < num_threads s3 \<longrightarrow> status (tcb s3 i) = EXITED)"
        unfolding n3 .
      from P1(2) k3 have ex: "status (tcb s3 (current_thread s3)) = EXITED" by simp
      show ?thesis
      proof (cases "find (\<lambda>i. status (tcb s3 i) = READY) (scan_order s3)")
        case None
        with ch ne3 ex have "schedule s3 = Continue s3" by simp
        with e ae ne None xq i3 show ?thesis by (simp add: schedule_and_unlock_def)
      next
        case (Some i)
        with ch have "schedule s3
            = Continue (tcb_update i (\<lambda>t. t\<lparr>status := RUNNING\<rparr>) (s3\<lparr>current_thread := i\<rparr>))"
          by simp
        with e ae ne Some xq i3 show ?thesis by (simp add: schedule_and_unlock_def)
      qed
    qed
    from P1 P2 P3 n3 k3 nr P5 True show ?thesis by (intro exI [of _ s3]) blast
  qed
qed

text \<open>
  Thread 1, joined by the main thread, exits with 42: the main thread is the first
  \<open>READY\<close> slot and becomes current.  And thread 1 exits after the main thread has:
  every record is \<open>EXITED\<close> and the process ends.
\<close>

theorem pthread_exit_spec_witness:
  "(let s = state_after [Create 7 0 1, Proceed, Join 1 100, Proceed] in
      reachable s UserCode \<and> initialized s \<and> current_thread s = 1
      \<and> joined_by (tcb s (current_thread s)) = 0
      \<and> (\<exists>s3. return_value (tcb s3 1) = 42 \<and> status (tcb s3 1) = EXITED
            \<and> status (tcb s3 0) = READY
            \<and> (\<exists>s4. pthread_exit s 42 = Jumps s4 \<and> schedule s3 = Continue s4))
      \<and> pthread_exit s 42
          = Jumps (state_after [Create 7 0 1, Proceed, Join 1 100, Proceed, Exit 42]))
   \<and> (let u = state_after [Create 7 0 1, Proceed, Exit 0, Proceed] in
      reachable u UserCode \<and> initialized u \<and> current_thread u = 1 \<and> status (tcb u 0) = EXITED
      \<and> (\<exists>s3. pthread_exit u 0 = Terminated 0 (cleanup_all_resources s3)))"
proof -
  have e: "(let s = state_after [Create 7 0 1, Proceed, Join 1 100, Proceed] in
      run [Create 7 0 1, Proceed, Join 1 100, Proceed] start = Some (s, UserCode)
      \<and> initialized s \<and> current_thread s = 1
      \<and> joined_by (tcb s 1) = 0 \<and> num_threads s = 2
      \<and> pthread_exit s 42
          = Jumps (state_after [Create 7 0 1, Proceed, Join 1 100, Proceed, Exit 42]))
    \<and> (let u = state_after [Create 7 0 1, Proceed, Exit 0, Proceed] in
      run [Create 7 0 1, Proceed, Exit 0, Proceed] start = Some (u, UserCode)
      \<and> initialized u \<and> current_thread u = 1
      \<and> joined_by (tcb u 1) = - 1 \<and> num_threads u = 2 \<and> status (tcb u 0) = EXITED)"
    by code_simp
  define s where "s = state_after [Create 7 0 1, Proceed, Join 1 100, Proceed]"
  define u where "u = state_after [Create 7 0 1, Proceed, Exit 0, Proceed]"
  from e have r: "run [Create 7 0 1, Proceed, Join 1 100, Proceed] start = Some (s, UserCode)"
    and i: "initialized s"
    and c: "current_thread s = 1" and j: "joined_by (tcb s 1) = 0" and n: "num_threads s = 2"
    and x: "pthread_exit s 42
      = Jumps (state_after [Create 7 0 1, Proceed, Join 1 100, Proceed, Exit 42])"
    and ru: "run [Create 7 0 1, Proceed, Exit 0, Proceed] start = Some (u, UserCode)"
    and iu: "initialized u"
    and cu: "current_thread u = 1" and ju: "joined_by (tcb u 1) = - 1"
    and nu: "num_threads u = 2" and eu: "status (tcb u 0) = EXITED"
    unfolding s_def u_def Let_def by blast+
  from r have re: "reachable s UserCode" by (rule run_start_reachable)
  from ru have reu: "reachable u UserCode" by (rule run_start_reachable)
  from pthread_exit_spec [OF re, of 42] i obtain s3 where
    p: "return_value (tcb s3 1) = 42" "status (tcb s3 1) = EXITED" "status (tcb s3 0) = READY"
    and q: "if \<forall>i. 0 \<le> i \<and> i < num_threads s \<longrightarrow> status (tcb s3 i) = EXITED
         then pthread_exit s 42 = Terminated 0 (cleanup_all_resources s3)
         else \<exists>s4. pthread_exit s 42 = Jumps s4 \<and> schedule s3 = Continue s4
                \<and> (case find (\<lambda>i. status (tcb s3 i) = READY) (scan_order s3) of
                     Some i \<Rightarrow>
                       s4 = tcb_update i (\<lambda>t. t\<lparr>status := RUNNING\<rparr>) (s3\<lparr>current_thread := i\<rparr>)
                   | None \<Rightarrow> s4 = s3)
                \<and> exec (Exit 42) s UserCode = Some (s4, BeforeLongjmp)
                \<and> exec Tick s4 BeforeLongjmp = after (signal_handler s4 BeforeLongjmp)"
    unfolding c j by auto
  from p(3) n have "\<not> (\<forall>i. 0 \<le> i \<and> i < num_threads s \<longrightarrow> status (tcb s3 i) = EXITED)"
    by (auto intro: exI [of _ 0])
  with q have "\<exists>s4. pthread_exit s 42 = Jumps s4 \<and> schedule s3 = Continue s4"
    by auto
  with p have A: "\<exists>s3. return_value (tcb s3 1) = 42 \<and> status (tcb s3 1) = EXITED
            \<and> status (tcb s3 0) = READY
            \<and> (\<exists>s4. pthread_exit s 42 = Jumps s4 \<and> schedule s3 = Continue s4)"
    by blast
  from pthread_exit_spec [OF reu, of 0] iu obtain t3 where
    pu: "status (tcb t3 1) = EXITED"
      "\<forall>i. 0 \<le> i \<and> i < 2 \<and> i \<noteq> 1 \<and> i \<noteq> - 1 \<longrightarrow> tcb t3 i = tcb u i"
    and qu: "if \<forall>i. 0 \<le> i \<and> i < 2 \<longrightarrow> status (tcb t3 i) = EXITED
         then pthread_exit u 0 = Terminated 0 (cleanup_all_resources t3)
         else \<exists>s4. pthread_exit u 0 = Jumps s4 \<and> schedule t3 = Continue s4
                \<and> (case find (\<lambda>i. status (tcb t3 i) = READY) (scan_order t3) of
                     Some i \<Rightarrow>
                       s4 = tcb_update i (\<lambda>t. t\<lparr>status := RUNNING\<rparr>) (t3\<lparr>current_thread := i\<rparr>)
                   | None \<Rightarrow> s4 = t3)
                \<and> exec (Exit 0) u UserCode = Some (s4, BeforeLongjmp)
                \<and> exec Tick s4 BeforeLongjmp = after (signal_handler s4 BeforeLongjmp)"
    unfolding cu ju nu by auto
  have "status (tcb t3 i) = EXITED" if "0 \<le> i \<and> i < 2" for i
  proof (cases "i = 1")
    case True
    with pu(1) show ?thesis by simp
  next
    case False
    with that have "i = 0" by arith
    with pu(2) eu show ?thesis by simp
  qed
  with qu have B: "\<exists>s3. pthread_exit u 0 = Terminated 0 (cleanup_all_resources s3)" by auto
  from re i c j x A reu iu cu eu B show ?thesis unfolding s_def u_def Let_def by simp
qed

text \<open>
  Claim C9 as stated fails when no slot is \<open>READY\<close>.  A semaphore is initialised with
  value 0 and thread 1 is created; the main thread waits on the semaphore and thread 1
  starts.  Thread 1 calls \<open>pthread_exit\<close>: the main thread is \<open>BLOCKED\<close> and nobody has
  joined thread 1, so \<open>schedule\<close> finds no \<open>READY\<close> slot and keeps thread 1 current.  The
  call stands before its \<open>longjmp\<close> with thread 1, which is \<open>EXITED\<close>, still current: there
  is no successor, and the jump goes through thread 1's own buffer, the one
  \<open>pthread_create\<close> fabricated, and enters \<open>thread_wrapper\<close> once more.
\<close>

theorem exit_without_successor_counterexample:
  "(let s = state_after [SemInit 5 0 0 True True, Create 7 0 1, Proceed, SemWait 5 True, Proceed];
        s4 = state_after
               [SemInit 5 0 0 True True, Create 7 0 1, Proceed, SemWait 5 True, Proceed, Exit 0] in
      reachable s UserCode \<and> initialized s \<and> current_thread s = 1
      \<and> status (tcb s 0) = BLOCKED \<and> status (tcb s 1) = RUNNING
      \<and> pthread_exit s 0 = Jumps s4 \<and> reachable s4 BeforeLongjmp
      \<and> current_thread s4 = 1 \<and> status (tcb s4 1) = EXITED \<and> status (tcb s4 0) = BLOCKED
      \<and> running_slots s4 = [] \<and> longjmp s4 = Starts)"
proof -
  have e: "(let s = state_after
                [SemInit 5 0 0 True True, Create 7 0 1, Proceed, SemWait 5 True, Proceed];
        s4 = state_after
               [SemInit 5 0 0 True True, Create 7 0 1, Proceed, SemWait 5 True, Proceed, Exit 0] in
      run [SemInit 5 0 0 True True, Create 7 0 1, Proceed, SemWait 5 True, Proceed] start
        = Some (s, UserCode)
      \<and> run [SemInit 5 0 0 True True, Create 7 0 1, Proceed, SemWait 5 True, Proceed, Exit 0] start
        = Some (s4, BeforeLongjmp)
      \<and> initialized s \<and> current_thread s = 1
      \<and> status (tcb s 0) = BLOCKED \<and> status (tcb s 1) = RUNNING
      \<and> pthread_exit s 0 = Jumps s4
      \<and> current_thread s4 = 1 \<and> status (tcb s4 1) = EXITED \<and> status (tcb s4 0) = BLOCKED
      \<and> running_slots s4 = [] \<and> longjmp s4 = Starts)"
    by code_simp
  define s where "s = state_after
    [SemInit 5 0 0 True True, Create 7 0 1, Proceed, SemWait 5 True, Proceed]"
  define s4 where "s4 = state_after
    [SemInit 5 0 0 True True, Create 7 0 1, Proceed, SemWait 5 True, Proceed, Exit 0]"
  from e have r: "run [SemInit 5 0 0 True True, Create 7 0 1, Proceed, SemWait 5 True, Proceed]
      start = Some (s, UserCode)"
    and r4: "run [SemInit 5 0 0 True True, Create 7 0 1, Proceed, SemWait 5 True, Proceed, Exit 0]
      start = Some (s4, BeforeLongjmp)"
    and f: "initialized s" "current_thread s = 1" "status (tcb s 0) = BLOCKED"
      "status (tcb s 1) = RUNNING" "pthread_exit s 0 = Jumps s4" "current_thread s4 = 1"
      "status (tcb s4 1) = EXITED" "status (tcb s4 0) = BLOCKED" "running_slots s4 = []"
      "longjmp s4 = Starts"
    unfolding s_def s4_def Let_def by blast+
  from r have "reachable s UserCode" by (rule run_start_reachable)
  moreover from r4 have "reachable s4 BeforeLongjmp" by (rule run_start_reachable)
  ultimately show ?thesis using f unfolding s_def s4_def Let_def by simp
qed

text \<open>
  A signal before the jump.  Thread 1, joined by the main thread, has called
  \<open>pthread_exit(42)\<close>; the call stands before its \<open>longjmp\<close> with the main thread
  current, whose buffer leads behind the \<open>setjmp\<close> of its join.  A timer signal now
  saves the handler's context over that buffer and chooses the main thread again.  The
  jump lands in the handler, which returns to the same \<open>longjmp\<close>: the join of the main
  thread is never resumed, and record 1 keeps \<open>joined_by = 0\<close>.
\<close>

lemma signal_before_longjmp:
  "(let s = state_after [Create 7 0 1, Proceed, Join 1 100, Proceed, Exit 42];
        s' = state_after [Create 7 0 1, Proceed, Join 1 100, Proceed, Exit 42, Tick] in
      run [Create 7 0 1, Proceed, Join 1 100, Proceed, Exit 42] start = Some (s, BeforeLongjmp)
      \<and> current_thread s = 0 \<and> ctx (tcb s 0) = SavedInJoin 1 100
      \<and> longjmp s = Resumes 1 100
      \<and> run [Create 7 0 1, Proceed, Join 1 100, Proceed, Exit 42, Tick] start
          = Some (s', BeforeLongjmp)
      \<and> current_thread s' = 0 \<and> status (tcb s' 0) = RUNNING
      \<and> ctx (tcb s' 0) = SavedInHandler BeforeLongjmp
      \<and> longjmp s' = Continues BeforeLongjmp \<and> joined_by (tcb s' 1) = 0
      \<and> run [Create 7 0 1, Proceed, Join 1 100, Proceed, Exit 42, Tick, Proceed] start
          = Some (s', BeforeLongjmp))"
  by code_simp

end
